theory Spec2Isabelle
  imports Complex_Main "HOL-Library.Sublist" "HOL-Library.Log_Nat" "HOL-Library.AList"
begin

section \<open>Numbers and strings of the source language\<close>

text \<open>
  The handlers are TypeScript; \<^verbatim>\<open>product.price\<close>, \<^verbatim>\<open>totalAmount\<close> are values of the
  language's only numeric type, the IEEE-754 binary64 number. A finite number is modelled
  by the rational it denotes, and every arithmetic result is rounded to the nearest
  representable value, ties to the even significand (\<open>to_double\<close>). Magnitudes of
  \<open>2^1024\<close> and beyond (Infinity) and NaN are outside the model. Quantities are integer
  counts and are modelled by \<open>int\<close>: on whole numbers below \<open>2^53\<close> the language's
  arithmetic is exact (\<open>to_double_of_int\<close> below).
\<close>

definition pow2 :: "int \<Rightarrow> rat" where
  "pow2 e = (if 0 \<le> e then 2 ^ nat e else 1 / 2 ^ nat (- e))"

text \<open>
  The binary exponent of a positive rational: \<open>pow2 (ilog2 x) \<le> x < pow2 (ilog2 x + 1)\<close>
  (\<open>ilog2_bounds\<close> below).
\<close>

definition ilog2 :: "rat \<Rightarrow> int" where
  "ilog2 x = (case quotient_of x of (a, b) \<Rightarrow>
     (let d = bitlen a - bitlen b in if pow2 d \<le> x then d else d - 1))"

definition round_half_even :: "rat \<Rightarrow> int" where
  "round_half_even x = (let f = \<lfloor>x\<rfloor>; r = x - of_int f in
     if r < 1 / 2 then f else if 1 / 2 < r then f + 1 else if even f then f else f + 1)"

text \<open>53 significant bits; below \<open>2^-1022\<close> the spacing stays \<open>2^-1074\<close> (subnormals).\<close>

definition to_double :: "rat \<Rightarrow> rat" where
  "to_double x = (if x = 0 then 0 else
     (let e = max (ilog2 \<bar>x\<bar> - 52) (- 1074)
      in of_int (round_half_even (x / pow2 e)) * pow2 e))"

definition js_add :: "rat \<Rightarrow> rat \<Rightarrow> rat" where
  "js_add a b = to_double (a + b)"

definition js_mul :: "rat \<Rightarrow> rat \<Rightarrow> rat" where
  "js_mul a b = to_double (a * b)"

type_synonym id = string

text \<open>\<^verbatim>\<open>s.includes(t)\<close>, \<^verbatim>\<open>s.slice(-6)\<close>, and the truthiness of an optional string.\<close>

definition str_includes :: "string \<Rightarrow> string \<Rightarrow> bool" where
  "str_includes s t = sublist t s"

definition slice_last6 :: "string \<Rightarrow> string" where
  "slice_last6 s = drop (length s - 6) s"

definition truthy :: "string option \<Rightarrow> bool" where
  "truthy v = (case v of None \<Rightarrow> False | Some s \<Rightarrow> s \<noteq> [])"

text \<open>A \<^verbatim>\<open>Set<string>\<close> iterates in insertion order; \<^verbatim>\<open>add\<close> of a member changes nothing.\<close>

definition Set_add :: "string list \<Rightarrow> string \<Rightarrow> string list" where
  "Set_add s x = (if x \<in> set s then s else s @ [x])"

definition new_Set :: "string list \<Rightarrow> string list" where
  "new_Set xs = foldl Set_add [] xs"

section \<open>Documents, collections and the environment\<close>

record product =
  p_name :: string
  p_price :: rat
  p_quantity :: int
  p_farmer :: id

record order_item =
  oi_product :: id
  oi_quantity :: int
  oi_price :: rat

record order =
  o_customer :: id
  o_items :: "order_item list"
  o_totalAmount :: rat
  o_shippingAddress :: "string option"
  o_paymentMethod :: string
  o_notes :: "string option"
  o_paymentStatus :: string
  o_status :: string
  o_stripePaymentIntentId :: "string option"

record notification =
  n_user :: id
  n_message :: string
  n_link :: "string option"
  n_read :: bool

text \<open>
  A collection is the list of its documents under their \<^verbatim>\<open>_id\<close>, in natural order;
  \<^verbatim>\<open>findById\<close> is \<open>map_of\<close>, saving a loaded document is \<open>AList.update\<close>.

  The Mongoose models of products and orders are not among the sources. Of a product the
  handlers use its name, price, quantity and farmer; of an order its customer, items,
  total, payment status, fulfillment status and payment intent. Identifiers are
  well-formed, the customer of an order and the farmer of a product exist, and a
  database call that the handlers make succeeds: what can fail in the model is what the
  handlers themselves throw or refuse, the payment gateway and the real-time trigger.
  Requests are served one after the other.
\<close>

record db =
  products :: "(id \<times> product) list"
  orders :: "(id \<times> order) list"
  notifications :: "notification list"

record user =
  userId :: id
  role :: string

text \<open>
  What the handlers reach outside the database: whether \<^verbatim>\<open>global.io\<close> is set, the
  payment gateway (\<^verbatim>\<open>createPaymentIntent\<close> of \<^verbatim>\<open>@/lib/stripe\<close> and
  \<^verbatim>\<open>stripe.paymentIntents.retrieve\<close>; \<open>Inl\<close> is the message of the error thrown,
  \<open>Inr\<close> the intent's id and client secret), and \<^verbatim>\<open>pusher.trigger\<close> on a channel
  (\<open>Some\<close> is the message of the error it rejects with).
\<close>

record env =
  io :: bool
  createPaymentIntent :: "rat \<Rightarrow> id \<Rightarrow> string + (id \<times> string)"
  paymentIntents_retrieve :: "id \<Rightarrow> string + string"
  pusher_trigger :: "string \<Rightarrow> string option"

datatype event =
    StartTransaction
  | AbortTransaction
  | CommitTransaction
  | ProductSave id
  | OrderSave id
  | CreatePaymentIntent rat id
  | Emit id string
  | PusherTrigger string

datatype body =
    ErrorJson string
  | ErrorMessageJson string string
  | OrderCreatedJson id order "(id \<times> string) option"
  | OrderJson id order "string option"
  | UpdatedJson id "order option"
  | ReceivedJson
  | TextBody string

datatype response = Response (status: nat) (body: body)

section \<open>POST /api/orders\<close>

record request_item =
  ri_product :: id
  ri_quantity :: int

record order_request =
  items :: "request_item list"
  shippingAddress :: "string option"
  paymentMethod :: string
  rq_notes :: "string option"

text \<open>
  The loop over the request's items, inside the transaction: the products written so far,
  \<^verbatim>\<open>orderItems\<close>, \<^verbatim>\<open>totalAmount\<close> and the saves issued are threaded through; a
  \<^verbatim>\<open>throw\<close> is \<open>Inl\<close> of the error's message.
\<close>

fun process_items ::
  "(id \<times> product) list \<Rightarrow> order_item list \<Rightarrow> rat \<Rightarrow> event list \<Rightarrow> request_item list \<Rightarrow>
     event list \<times> (string + (id \<times> product) list \<times> order_item list \<times> rat)" where
  "process_items ps orderItems totalAmount evs [] = (evs, Inr (ps, orderItems, totalAmount))"
| "process_items ps orderItems totalAmount evs (item # rest) =
     (case map_of ps (ri_product item) of
        None \<Rightarrow> (evs, Inl (''Product '' @ ri_product item @ '' not found''))
      | Some product \<Rightarrow>
          if p_quantity product < ri_quantity item
          then (evs, Inl (''Insufficient stock for '' @ p_name product))
          else process_items
                 (AList.update (ri_product item)
                    (product\<lparr>p_quantity := p_quantity product - ri_quantity item\<rparr>) ps)
                 (orderItems @ [\<lparr>oi_product = ri_product item, oi_quantity = ri_quantity item,
                                  oi_price = p_price product\<rparr>])
                 (js_add totalAmount (js_mul (p_price product) (of_int (ri_quantity item))))
                 (evs @ [ProductSave (ri_product item)])
                 rest)"

text \<open>
  Modelled from the spec: the defaults of the Order schema (\<^verbatim>\<open>@/models/Order\<close> is not
  among the sources): a new order has payment status and fulfillment status
  \<^verbatim>\<open>pending\<close> and no payment intent.
\<close>

definition new_Order :: "id \<Rightarrow> order_item list \<Rightarrow> rat \<Rightarrow> order_request \<Rightarrow> order" where
  "new_Order customer orderItems totalAmount req =
     \<lparr>o_customer = customer, o_items = orderItems, o_totalAmount = totalAmount,
      o_shippingAddress = shippingAddress req, o_paymentMethod = paymentMethod req,
      o_notes = rq_notes req, o_paymentStatus = ''pending'', o_status = ''pending'',
      o_stripePaymentIntentId = None\<rparr>"

text \<open>The \<^verbatim>\<open>catch\<close> block: the transaction has been aborted; the message picks the status.\<close>

definition create_catch :: "string \<Rightarrow> response" where
  "create_catch message =
     (if str_includes message ''Insufficient stock'' \<or> str_includes message ''not found''
      then Response 400 (ErrorJson message)
      else Response 500 (ErrorJson ''Internal server error''))"

text \<open>After the commit: one notification and one emit per farmer, one notification to the customer.\<close>

definition farmerIds_of :: "(id \<times> product) list \<Rightarrow> order_item list \<Rightarrow> id list" where
  "farmerIds_of ps orderItems =
     new_Set (map (\<lambda>kp. p_farmer (snd kp))
       (filter (\<lambda>kp. fst kp \<in> set (map oi_product orderItems)) ps))"

definition new_order_notification :: "id \<Rightarrow> id \<Rightarrow> notification" where
  "new_order_notification orderId farmerId =
     \<lparr>n_user = farmerId,
      n_message = ''You have a new order (#'' @ slice_last6 orderId @ '') containing your products.'',
      n_link = Some (''/orders/'' @ orderId), n_read = False\<rparr>"

definition order_placed_notification :: "id \<Rightarrow> id \<Rightarrow> notification" where
  "order_placed_notification orderId customer =
     \<lparr>n_user = customer,
      n_message = ''Your order #'' @ slice_last6 orderId @ '' has been placed successfully!'',
      n_link = Some (''/orders/'' @ orderId), n_read = False\<rparr>"

definition notify_created :: "env \<Rightarrow> id \<Rightarrow> order \<Rightarrow> db \<Rightarrow> db \<times> event list" where
  "notify_created e orderId savedOrder d =
     (let farmerIds = farmerIds_of (products d) (o_items savedOrder)
      in (d\<lparr>notifications := notifications d
               @ map (new_order_notification orderId) farmerIds
               @ [order_placed_notification orderId (o_customer savedOrder)]\<rparr>,
          (if io e then map (\<lambda>f. Emit f ''new_order'') farmerIds else [])))"

text \<open>
  The handler. \<open>orderId\<close> is the \<^verbatim>\<open>_id\<close> the new document receives. Every write before
  \<^verbatim>\<open>commitTransaction\<close> carries the session, so an abort leaves the database as it was.
\<close>

definition create_order ::
  "env \<Rightarrow> user option \<Rightarrow> id \<Rightarrow> order_request \<Rightarrow> db \<Rightarrow> response \<times> db \<times> event list" where
  "create_order e usr orderId req d =
     (case usr of
        None \<Rightarrow> (Response 401 (ErrorJson ''Authentication required''), d,
                 [StartTransaction, AbortTransaction])
      | Some u \<Rightarrow>
          if items req = [] then
            (Response 400 (ErrorJson ''Order must contain at least one item''), d,
             [StartTransaction, AbortTransaction])
          else if \<not> truthy (shippingAddress req) then
            (Response 400 (ErrorJson ''Shipping address is required''), d,
             [StartTransaction, AbortTransaction])
          else
            (case process_items (products d) [] 0 [StartTransaction] (items req) of
               (evs, Inl message) \<Rightarrow> (create_catch message, d, evs @ [AbortTransaction])
             | (evs, Inr (ps, orderItems, totalAmount)) \<Rightarrow>
                 (let ord = new_Order (userId u) orderItems totalAmount req;
                      evs1 = evs @ [OrderSave orderId]
                  in if paymentMethod req = ''stripe'' then
                       (case createPaymentIntent e totalAmount orderId of
                          Inl message \<Rightarrow>
                            (create_catch message, d,
                             evs1 @ [CreatePaymentIntent totalAmount orderId, AbortTransaction])
                        | Inr (intentId, clientSecret) \<Rightarrow>
                            (let saved = ord\<lparr>o_stripePaymentIntentId := Some intentId\<rparr>;
                                 committed = d\<lparr>products := ps,
                                               orders := AList.update orderId saved (orders d)\<rparr>;
                                 (d', emits) = notify_created e orderId saved committed
                             in (Response 200
                                   (OrderCreatedJson orderId saved (Some (intentId, clientSecret))),
                                 d',
                                 evs1 @ [CreatePaymentIntent totalAmount orderId, OrderSave orderId,
                                         CommitTransaction] @ emits)))
                     else
                       (let committed = d\<lparr>products := ps,
                                           orders := AList.update orderId ord (orders d)\<rparr>;
                            (d', emits) = notify_created e orderId ord committed
                        in (Response 200 (OrderCreatedJson orderId ord None), d',
                            evs1 @ [CommitTransaction] @ emits)))))"

section \<open>POST /api/webhooks/stripe\<close>

text \<open>
  \<^verbatim>\<open>stripe.webhooks.constructEvent\<close> either throws (\<open>Inl\<close> of the message: the signature
  does not verify) or yields the event, of which the handler reads the type and
  \<^verbatim>\<open>data.object.metadata.orderId\<close>.
\<close>

record stripe_event =
  ev_type :: string
  ev_orderId :: "string option"

type_synonym webhook_request = "string + stripe_event"

text \<open>\<^verbatim>\<open>Product.findByIdAndUpdate(id, { $inc: { quantity: n } })\<close>: no document, no change.\<close>

definition inc_quantity :: "id \<Rightarrow> int \<Rightarrow> (id \<times> product) list \<Rightarrow> (id \<times> product) list" where
  "inc_quantity pid n ps =
     (case map_of ps pid of
        None \<Rightarrow> ps
      | Some p \<Rightarrow> AList.update pid (p\<lparr>p_quantity := p_quantity p + n\<rparr>) ps)"

definition null_id_message :: string where
  "null_id_message =
     ''Cannot read properties of null (reading '' @ [CHR 0x27] @ ''_id'' @ [CHR 0x27] @ '')''"

text \<open>
  The loop over \<^verbatim>\<open>order.items\<close>. \<open>populated\<close> is the product collection as read when the
  order was loaded: an item whose product no longer exists is populated with
  \<^verbatim>\<open>null\<close>, and \<^verbatim>\<open>product._id\<close> throws. The updates are not in a transaction, so the
  products written before a throw stay written.
\<close>

fun decrement_stock ::
  "(id \<times> product) list \<Rightarrow> (id \<times> product) list \<Rightarrow> string list \<Rightarrow> order_item list \<Rightarrow>
     (id \<times> product) list \<times> (string + string list)" where
  "decrement_stock populated ps farmerIdsToNotify [] = (ps, Inr farmerIdsToNotify)"
| "decrement_stock populated ps farmerIdsToNotify (item # rest) =
     (case map_of populated (oi_product item) of
        None \<Rightarrow> (ps, Inl null_id_message)
      | Some product \<Rightarrow>
          decrement_stock populated
            (inc_quantity (oi_product item) (- oi_quantity item) ps)
            (if p_farmer product \<noteq> [] then Set_add farmerIdsToNotify (p_farmer product)
             else farmerIdsToNotify)
            rest)"

definition farmer_channel :: "id \<Rightarrow> string" where
  "farmer_channel farmerId = ''private-farmer-'' @ farmerId"

text \<open>
  The loop over \<^verbatim>\<open>farmerIdsToNotify\<close>: \<open>PusherTrigger\<close> records a trigger that went
  through; the first one that rejects ends the loop with its message.
\<close>

fun trigger_all :: "env \<Rightarrow> event list \<Rightarrow> id list \<Rightarrow> event list \<times> string option" where
  "trigger_all e evs [] = (evs, None)"
| "trigger_all e evs (farmerId # rest) =
     (case pusher_trigger e (farmer_channel farmerId) of
        Some message \<Rightarrow> (evs, Some message)
      | None \<Rightarrow> trigger_all e (evs @ [PusherTrigger (farmer_channel farmerId)]) rest)"

definition webhook_catch :: "string \<Rightarrow> response" where
  "webhook_catch message = Response 400 (TextBody (''Webhook Error: '' @ message))"

definition stripe_webhook :: "env \<Rightarrow> webhook_request \<Rightarrow> db \<Rightarrow> response \<times> db \<times> event list" where
  "stripe_webhook e req d =
     (case req of
        Inl message \<Rightarrow> (webhook_catch message, d, [])
      | Inr ev \<Rightarrow>
          if ev_type ev = ''payment_intent.succeeded'' then
            (if \<not> truthy (ev_orderId ev) then
               (Response 400 (ErrorJson ''Webhook Error: Missing orderId''), d, [])
             else
               (case map_of (orders d) (the (ev_orderId ev)) of
                  None \<Rightarrow> (Response 404 (ErrorJson ''Order not found''), d, [])
                | Some ord \<Rightarrow>
                    if o_paymentStatus ord \<noteq> ''paid'' then
                      (case decrement_stock (products d) (products d) [] (o_items ord) of
                         (ps, Inl message) \<Rightarrow> (webhook_catch message, d\<lparr>products := ps\<rparr>, [])
                       | (ps, Inr farmerIdsToNotify) \<Rightarrow>
                           (let d' = d\<lparr>products := ps,
                                       orders := AList.update (the (ev_orderId ev))
                                         (ord\<lparr>o_paymentStatus := ''paid''\<rparr>) (orders d)\<rparr>
                            in case trigger_all e [] farmerIdsToNotify of
                                 (evs, Some message) \<Rightarrow> (webhook_catch message, d', evs)
                               | (evs, None) \<Rightarrow> (Response 200 ReceivedJson, d', evs)))
                    else (Response 200 ReceivedJson, d, [])))
          else (Response 200 ReceivedJson, d, []))"

section \<open>GET and PUT /api/orders/[orderId]\<close>

text \<open>
  The sources hold two versions of this route. The model follows the one that also
  handles \<^verbatim>\<open>paymentStatus\<close> (the second half of the unnamed part that begins with
  \<^verbatim>\<open>/api/orders\<close>); in the other one (\<^verbatim>\<open>src/app/api/orders/[orderId]/route.ts\<close>)
  PUT is open to farmers only and knows no payment status.

  The order is loaded with its items' products populated; an item whose product is gone
  has \<^verbatim>\<open>item.product\<close> null, and \<^verbatim>\<open>item.product?.farmer?.toString()\<close> is undefined.
\<close>

definition isCustomer :: "order \<Rightarrow> user \<Rightarrow> bool" where
  "isCustomer ord u = (o_customer ord = userId u)"

definition isFarmerInvolved :: "(id \<times> product) list \<Rightarrow> order \<Rightarrow> user \<Rightarrow> bool" where
  "isFarmerInvolved ps ord u =
     list_ex (\<lambda>item. case map_of ps (oi_product item) of
                        None \<Rightarrow> False
                      | Some p \<Rightarrow> p_farmer p = userId u)
       (o_items ord)"

definition get_order :: "env \<Rightarrow> user option \<Rightarrow> id \<Rightarrow> db \<Rightarrow> response \<times> db \<times> event list" where
  "get_order e usr orderId d =
     (case usr of
        None \<Rightarrow> (Response 401 (ErrorJson ''Unauthorized''), d, [])
      | Some u \<Rightarrow>
          (case map_of (orders d) orderId of
             None \<Rightarrow> (Response 404 (ErrorJson ''Order not found''), d, [])
           | Some ord \<Rightarrow>
               if \<not> isCustomer ord u \<and> \<not> isFarmerInvolved (products d) ord u then
                 (Response 403 (ErrorJson ''Forbidden: You are not authorized to view this order.''),
                  d, [])
               else if truthy (o_stripePaymentIntentId ord) \<and> o_paymentStatus ord \<noteq> ''paid'' then
                 (case paymentIntents_retrieve e (the (o_stripePaymentIntentId ord)) of
                    Inl message \<Rightarrow>
                      (Response 500 (ErrorMessageJson ''Internal Server Error'' message), d, [])
                  | Inr clientSecret \<Rightarrow>
                      (Response 200 (OrderJson orderId ord (Some clientSecret)), d, []))
               else (Response 200 (OrderJson orderId ord None), d, [])))"

record status_request =
  st_status :: "string option"
  st_paymentStatus :: "string option"

definition status_notification :: "id \<Rightarrow> id \<Rightarrow> string \<Rightarrow> notification" where
  "status_notification orderId customer st =
     \<lparr>n_user = customer,
      n_message = ''Update: Your order #'' @ slice_last6 orderId @ '' has been marked as ''
                    @ [CHR 0x27] @ st @ [CHR 0x27] @ ''.'',
      n_link = Some (''/orders/'' @ orderId), n_read = False\<rparr>"

text \<open>
  From \<^verbatim>\<open>await order.save()\<close> to the response: the order is written; if the body carries
  a status, the customer gets a notification and, with \<^verbatim>\<open>io\<close>, an emit.
\<close>

definition put_saved ::
  "env \<Rightarrow> id \<Rightarrow> status_request \<Rightarrow> order \<Rightarrow> db \<Rightarrow> response \<times> db \<times> event list" where
  "put_saved e orderId req ord d =
     (let d1 = d\<lparr>orders := AList.update orderId ord (orders d)\<rparr>;
          d2 = (if truthy (st_status req)
                then d1\<lparr>notifications := notifications d1
                          @ [status_notification orderId (o_customer ord) (the (st_status req))]\<rparr>
                else d1);
          evs = (if truthy (st_status req) \<and> io e
                 then [Emit (o_customer ord) ''order_status_update''] else [])
      in (Response 200 (UpdatedJson orderId (map_of (orders d2) orderId)), d2, evs))"

definition put_order ::
  "env \<Rightarrow> user option \<Rightarrow> id \<Rightarrow> status_request \<Rightarrow> db \<Rightarrow> response \<times> db \<times> event list" where
  "put_order e usr orderId req d =
     (case usr of
        None \<Rightarrow> (Response 401 (ErrorJson ''Unauthorized''), d, [])
      | Some u \<Rightarrow>
          if \<not> truthy (st_status req) \<and> \<not> truthy (st_paymentStatus req) then
            (Response 400 (ErrorJson ''Missing status or paymentStatus to update''), d, [])
          else
            (case map_of (orders d) orderId of
               None \<Rightarrow> (Response 404 (ErrorJson ''Order not found''), d, [])
             | Some ord \<Rightarrow>
                 if \<not> isCustomer ord u \<and> \<not> isFarmerInvolved (products d) ord u then
                   (Response 403
                      (ErrorJson ''Forbidden: You are not authorized to modify this order.''), d, [])
                 else if truthy (st_paymentStatus req) \<and> isCustomer ord u
                         \<and> st_paymentStatus req \<noteq> Some ''paid'' then
                   (Response 400 (ErrorJson ''Invalid payment status provided.''), d, [])
                 else
                   (let paid = truthy (st_paymentStatus req) \<and> isCustomer ord u;
                        ord1 = (if paid then ord\<lparr>o_paymentStatus := ''paid''\<rparr> else ord)
                    in if truthy (st_status req) \<and> isFarmerInvolved (products d) ord u then
                         (if role u \<noteq> ''farmer'' then
                            (Response 403
                               (ErrorJson ''Forbidden: Only farmers can update order status.''),
                             d, [])
                          else put_saved e orderId req (ord1\<lparr>o_status := the (st_status req)\<rparr>) d)
                       else if \<not> paid then
                         (Response 403
                            (ErrorJson ''Forbidden: Your role does not permit this action.''), d, [])
                       else put_saved e orderId req ord1 d)))"

section \<open>Sequences of requests\<close>

datatype request =
    PostOrder "user option" id order_request
  | PostWebhook webhook_request
  | GetOrder "user option" id
  | PutOrder "user option" id status_request

definition handle :: "env \<Rightarrow> request \<Rightarrow> db \<Rightarrow> response \<times> db \<times> event list" where
  "handle e rq d =
     (case rq of
        PostOrder usr orderId req \<Rightarrow> create_order e usr orderId req d
      | PostWebhook req \<Rightarrow> stripe_webhook e req d
      | GetOrder usr orderId \<Rightarrow> get_order e usr orderId d
      | PutOrder usr orderId req \<Rightarrow> put_order e usr orderId req d)"

text \<open>The database after a sequence of requests, each served in its own environment.\<close>

fun run :: "(env \<times> request) list \<Rightarrow> db \<Rightarrow> db" where
  "run [] d = d"
| "run (er # rest) d = run rest (fst (snd (handle (fst er) (snd er) d)))"

text \<open>Every item of every order references a product of the catalog.\<close>

definition references_ok :: "db \<Rightarrow> bool" where
  "references_ok d =
     list_all (\<lambda>orderId. case map_of (orders d) orderId of
                            None \<Rightarrow> True
                          | Some ord \<Rightarrow>
                              list_all (\<lambda>it. map_of (products d) (oi_product it) \<noteq> None)
                                (o_items ord))
       (map fst (orders d))"

section \<open>Reference notions of the specification\<close>

text \<open>
  The total as the specification words it, the exact sum of unit price times quantity,
  and the total as the handler's loop accumulates it, left to right in the language's
  arithmetic.
\<close>

definition exact_total :: "order_item list \<Rightarrow> rat" where
  "exact_total its = (\<Sum>it\<leftarrow>its. oi_price it * of_int (oi_quantity it))"

definition running_total :: "order_item list \<Rightarrow> rat" where
  "running_total its =
     foldl (\<lambda>t it. js_add t (js_mul (oi_price it) (of_int (oi_quantity it)))) 0 its"

text \<open>The quantity of one product that a request asks for, over all its items.\<close>

definition requested_quantity :: "id \<Rightarrow> request_item list \<Rightarrow> int" where
  "requested_quantity pid its = (\<Sum>it\<leftarrow>its. if ri_product it = pid then ri_quantity it else 0)"

text \<open>The quantity of one product that an order holds, over all its items.\<close>

definition ordered_quantity :: "id \<Rightarrow> order_item list \<Rightarrow> int" where
  "ordered_quantity pid its = (\<Sum>it\<leftarrow>its. if oi_product it = pid then oi_quantity it else 0)"

text \<open>
  The seller set of an order: the sellers owning at least one product referenced by the
  order's items.
\<close>

definition seller_set :: "(id \<times> product) list \<Rightarrow> order_item list \<Rightarrow> id set" where
  "seller_set ps its =
     {f. \<exists>it\<in>set its. \<exists>p. map_of ps (oi_product it) = Some p \<and> p_farmer p = f}"

text \<open>The payment-success callback for an order: the signature verifies, the metadata names it.\<close>

definition payment_succeeded :: "id \<Rightarrow> webhook_request" where
  "payment_succeeded orderId =
     Inr \<lparr>ev_type = ''payment_intent.succeeded'', ev_orderId = Some orderId\<rparr>"

section \<open>A small market\<close>

definition gateway_ok :: "rat \<Rightarrow> id \<Rightarrow> string + (id \<times> string)" where
  "gateway_ok amount orderId = Inr (''pi_1'', ''pi_1_secret'')"

definition retrieve_ok :: "id \<Rightarrow> string + string" where
  "retrieve_ok intentId = Inr ''pi_1_secret''"

definition pusher_ok :: "string \<Rightarrow> string option" where
  "pusher_ok channel = None"

definition pusher_down :: "string \<Rightarrow> string option" where
  "pusher_down channel = Some ''connect ETIMEDOUT''"

definition pusher_f1_down :: "string \<Rightarrow> string option" where
  "pusher_f1_down channel =
     (if channel = ''private-farmer-f1'' then Some ''connect ETIMEDOUT'' else None)"

definition env_ok :: env where
  "env_ok = \<lparr>io = True, createPaymentIntent = gateway_ok,
             paymentIntents_retrieve = retrieve_ok, pusher_trigger = pusher_ok\<rparr>"

definition env_pusher_down :: env where
  "env_pusher_down = \<lparr>io = True, createPaymentIntent = gateway_ok,
             paymentIntents_retrieve = retrieve_ok, pusher_trigger = pusher_down\<rparr>"

definition env_f1_down :: env where
  "env_f1_down = \<lparr>io = True, createPaymentIntent = gateway_ok,
             paymentIntents_retrieve = retrieve_ok, pusher_trigger = pusher_f1_down\<rparr>"

definition gateway_down :: "rat \<Rightarrow> id \<Rightarrow> string + (id \<times> string)" where
  "gateway_down amount orderId = Inl ''connect ECONNREFUSED''"

definition env_gateway_down :: env where
  "env_gateway_down = \<lparr>io = True, createPaymentIntent = gateway_down,
             paymentIntents_retrieve = retrieve_ok, pusher_trigger = pusher_ok\<rparr>"

text \<open>Apples at 10.00 (stock 5), honey at 5.00 (stock 1), eggs at 0.1 (the nearest number).\<close>

definition apples :: product where
  "apples = \<lparr>p_name = ''Apples'', p_price = 10, p_quantity = 5, p_farmer = ''f1''\<rparr>"

definition honey :: product where
  "honey = \<lparr>p_name = ''Honey'', p_price = 5, p_quantity = 1, p_farmer = ''f2''\<rparr>"

definition eggs :: product where
  "eggs = \<lparr>p_name = ''Eggs'', p_price = 3602879701896397 / 36028797018963968,
           p_quantity = 12, p_farmer = ''f1''\<rparr>"

definition market :: db where
  "market = \<lparr>products = [(''p1'', apples), (''p2'', honey), (''p3'', eggs)],
             orders = [], notifications = []\<rparr>"

definition buyer :: user where
  "buyer = \<lparr>userId = ''c1'', role = ''customer''\<rparr>"

definition farmer1 :: user where
  "farmer1 = \<lparr>userId = ''f1'', role = ''farmer''\<rparr>"

definition stranger :: user where
  "stranger = \<lparr>userId = ''x9'', role = ''farmer''\<rparr>"

definition eggs_request :: order_request where
  "eggs_request = \<lparr>items = [\<lparr>ri_product = ''p3'', ri_quantity = 3\<rparr>],
                   shippingAddress = Some ''1 Farm Lane'', paymentMethod = ''stripe'',
                   rq_notes = None\<rparr>"

definition honey_request :: order_request where
  "honey_request = \<lparr>items = [\<lparr>ri_product = ''p2'', ri_quantity = 3\<rparr>],
                    shippingAddress = Some ''1 Farm Lane'', paymentMethod = ''cod'',
                    rq_notes = None\<rparr>"

definition basket_request :: order_request where
  "basket_request = \<lparr>items = [\<lparr>ri_product = ''p1'', ri_quantity = 2\<rparr>,
                              \<lparr>ri_product = ''p2'', ri_quantity = 1\<rparr>],
                     shippingAddress = Some ''1 Farm Lane'', paymentMethod = ''stripe'',
                     rq_notes = None\<rparr>"

definition basket_order :: order where
  "basket_order = \<lparr>o_customer = ''c1'',
        o_items = [\<lparr>oi_product = ''p1'', oi_quantity = 2, oi_price = 10\<rparr>,
                   \<lparr>oi_product = ''p2'', oi_quantity = 1, oi_price = 5\<rparr>],
        o_totalAmount = 25,
        o_shippingAddress = Some ''1 Farm Lane'', o_paymentMethod = ''stripe'',
        o_notes = None, o_paymentStatus = ''pending'',
        o_status = ''pending'', o_stripePaymentIntentId = Some ''pi_1''\<rparr>"

text \<open>The market once the basket has been ordered, the payment still pending.\<close>

definition basket_market :: db where
  "basket_market =
     fst (snd (create_order env_ok (Some buyer) ''order000003'' basket_request market))"

text \<open>Request bodies for PUT: nothing to update, a fulfillment status, a payment
  confirmation that also carries a fulfillment status.\<close>

definition empty_update :: status_request where
  "empty_update = \<lparr>st_status = None, st_paymentStatus = None\<rparr>"

definition shipped_update :: status_request where
  "shipped_update = \<lparr>st_status = Some ''shipped'', st_paymentStatus = None\<rparr>"

definition paid_and_shipped_update :: status_request where
  "paid_and_shipped_update = \<lparr>st_status = Some ''shipped'', st_paymentStatus = Some ''paid''\<rparr>"

definition eggs_order :: order where
  "eggs_order = \<lparr>o_customer = ''c1'',
        o_items = [\<lparr>oi_product = ''p3'', oi_quantity = 3,
                    oi_price = 3602879701896397 / 36028797018963968\<rparr>],
        o_totalAmount = 1351079888211149 / 4503599627370496,
        o_shippingAddress = Some ''1 Farm Lane'', o_paymentMethod = ''stripe'',
        o_notes = None, o_paymentStatus = ''pending'',
        o_status = ''pending'', o_stripePaymentIntentId = Some ''pi_1''\<rparr>"

section \<open>The arithmetic is exact on whole numbers\<close>

lemma pow2_powi: "pow2 e = 2 powi e"
  by (simp add: pow2_def power_int_def inverse_eq_divide power_one_over)

lemma ilog2_bounds:
  assumes "0 < x"
  shows "pow2 (ilog2 x) \<le> x \<and> x < pow2 (ilog2 x + 1)"
proof -
  obtain a b where q: "quotient_of x = (a, b)" by (cases "quotient_of x")
  then have b: "0 < b" and x: "x = of_int a / of_int b"
    using quotient_of_denom_pos quotient_of_div by blast+
  with assms have a: "0 < a"
    by (simp add: zero_less_divide_iff)
  let ?d = "bitlen a - bitlen b"
  from bitlen_bounds [OF a] have a1: "2 ^ nat (bitlen a - 1) \<le> a" and a2: "a < 2 ^ nat (bitlen a)"
    by simp_all
  from bitlen_bounds [OF b] have b1: "2 ^ nat (bitlen b - 1) \<le> b" and b2: "b < 2 ^ nat (bitlen b)"
    by simp_all
  have la: "1 \<le> bitlen a" and lb: "1 \<le> bitlen b"
    using a b by (simp_all add: bitlen_alt_def)
  have A1: "(2::rat) powi (bitlen a - 1) \<le> of_int a"
  proof -
    have "(of_int (2 ^ nat (bitlen a - 1)) :: rat) \<le> of_int a" using a1 by (simp only: of_int_le_iff)
    then show ?thesis using la by (simp add: power_int_def)
  qed
  have A2: "(of_int a :: rat) < 2 powi (bitlen a)"
  proof -
    have "(of_int a :: rat) < of_int (2 ^ nat (bitlen a))" using a2 by (simp only: of_int_less_iff)
    then show ?thesis using la by (simp add: power_int_def)
  qed
  have B1: "(2::rat) powi (bitlen b - 1) \<le> of_int b"
  proof -
    have "(of_int (2 ^ nat (bitlen b - 1)) :: rat) \<le> of_int b" using b1 by (simp only: of_int_le_iff)
    then show ?thesis using lb by (simp add: power_int_def)
  qed
  have B2: "(of_int b :: rat) < 2 powi (bitlen b)"
  proof -
    have "(of_int b :: rat) < of_int (2 ^ nat (bitlen b))" using b2 by (simp only: of_int_less_iff)
    then show ?thesis using lb by (simp add: power_int_def)
  qed
  have bpos: "(0::rat) < of_int b" using b by simp
  have upper: "x < pow2 (?d + 1)"
  proof -
    have "x * of_int b = of_int a" using x bpos by simp
    also have "\<dots> < 2 powi (bitlen a)" by (rule A2)
    also have "\<dots> = (2::rat) powi (?d + 1) * 2 powi (bitlen b - 1)"
      by (simp flip: power_int_add)
    also have "\<dots> \<le> 2 powi (?d + 1) * of_int b"
      using B1 by (intro mult_left_mono) simp_all
    finally show ?thesis using bpos by (simp add: pow2_powi)
  qed
  have lower: "pow2 (?d - 1) < x"
  proof -
    have "(2::rat) powi (?d - 1) * of_int b < 2 powi (?d - 1) * 2 powi (bitlen b)"
      using B2 by (intro mult_strict_left_mono) simp_all
    also have "\<dots> = 2 powi (bitlen a - 1)"
      by (simp flip: power_int_add)
    also have "\<dots> \<le> of_int a" by (rule A1)
    also have "\<dots> = x * of_int b" using x bpos by simp
    finally show ?thesis using bpos by (simp add: pow2_powi)
  qed
  show ?thesis
  proof (cases "pow2 ?d \<le> x")
    case True
    with q upper show ?thesis by (simp add: ilog2_def)
  next
    case False
    with q lower show ?thesis by (simp add: ilog2_def)
  qed
qed


lemma round_half_even_of_int: "round_half_even (of_int k) = k"
  by (simp add: round_half_even_def)

lemma pow2_mono: "a \<le> b \<Longrightarrow> pow2 a \<le> pow2 b"
  by (simp add: pow2_powi power_int_increasing)

lemma to_double_of_int:
  assumes "\<bar>n\<bar> < 2 ^ 53"
  shows "to_double (of_int n) = of_int n"
proof (cases "n = 0")
  case True
  then show ?thesis by (simp add: to_double_def)
next
  case False
  let ?x = "of_int n :: rat"
  let ?e = "max (ilog2 \<bar>?x\<bar> - 52) (- 1074)"
  from False have pos: "0 < \<bar>?x\<bar>" by simp
  have "ilog2 \<bar>?x\<bar> < 53"
  proof (rule ccontr)
    assume "\<not> ilog2 \<bar>?x\<bar> < 53"
    then have "pow2 53 \<le> pow2 (ilog2 \<bar>?x\<bar>)" by (intro pow2_mono) simp
    also have "\<dots> \<le> \<bar>?x\<bar>" using ilog2_bounds [OF pos] by simp
    finally have "(2::rat) ^ 53 \<le> \<bar>of_int n\<bar>" by (simp add: pow2_def)
    then have "(of_int (2 ^ 53) :: rat) \<le> of_int \<bar>n\<bar>" by simp
    then have "2 ^ 53 \<le> \<bar>n\<bar>" by (simp only: of_int_le_iff)
    with assms show False by simp
  qed
  then have e: "?e \<le> 0" by simp
  then have p: "pow2 ?e = 1 / 2 ^ nat (- ?e)"
    by (cases "?e = 0") (simp_all add: pow2_def)
  have "?x / pow2 ?e = of_int (n * 2 ^ nat (- ?e))"
    unfolding p by simp
  then have "round_half_even (?x / pow2 ?e) = n * 2 ^ nat (- ?e)"
    by (simp only: round_half_even_of_int)
  then have "of_int (round_half_even (?x / pow2 ?e)) * pow2 ?e = ?x"
    unfolding p by simp
  with False show ?thesis
    by (simp add: to_double_def Let_def)
qed


lemma foldl_total_exact:
  assumes "t \<in> \<int>"
    and "\<forall>it\<in>set its. oi_price it \<in> \<int>"
    and "\<bar>t\<bar> + (\<Sum>it\<leftarrow>its. \<bar>oi_price it * of_int (oi_quantity it)\<bar>) < 2 ^ 53"
  shows "foldl (\<lambda>t it. js_add t (js_mul (oi_price it) (of_int (oi_quantity it)))) t its
           = t + (\<Sum>it\<leftarrow>its. oi_price it * of_int (oi_quantity it))"
  using assms
proof (induction its arbitrary: t)
  case Nil
  then show ?case by simp
next
  case (Cons it its)
  let ?pq = "oi_price it * of_int (oi_quantity it)"
  let ?rest = "\<Sum>it\<leftarrow>its. \<bar>oi_price it * of_int (oi_quantity it)\<bar>"
  have rest: "0 \<le> ?rest" by (intro sum_list_nonneg) auto
  from Cons.prems(2) have "?pq \<in> \<int>" by simp
  then obtain k where k: "?pq = of_int k" by (auto elim: Ints_cases)
  from Cons.prems(1) obtain m where m: "t = of_int m" by (auto elim: Ints_cases)
  from Cons.prems(3) rest have b1: "\<bar>?pq\<bar> < 2 ^ 53" and b2: "\<bar>t\<bar> + \<bar>?pq\<bar> < 2 ^ 53"
    by simp_all
  have "\<bar>of_int k :: rat\<bar> < of_int (2 ^ 53)" using b1 k by simp
  then have "\<bar>k\<bar> < 2 ^ 53" by (simp only: of_int_abs [symmetric] of_int_less_iff)
  then have mul: "js_mul (oi_price it) (of_int (oi_quantity it)) = ?pq"
    unfolding js_mul_def k by (rule to_double_of_int)
  have "\<bar>t + ?pq\<bar> < 2 ^ 53" using b2 by linarith
  then have "\<bar>of_int (m + k) :: rat\<bar> < of_int (2 ^ 53)" using k m by simp
  then have "\<bar>m + k\<bar> < 2 ^ 53" by (simp only: of_int_abs [symmetric] of_int_less_iff)
  then have "to_double (of_int (m + k)) = of_int (m + k)" by (rule to_double_of_int)
  then have add: "js_add t ?pq = t + ?pq"
    unfolding js_add_def k m by simp
  have t': "t + ?pq \<in> \<int>" using k m by simp
  have bound: "\<bar>t + ?pq\<bar> + ?rest < 2 ^ 53"
    using Cons.prems(3) by simp
  from Cons.IH [OF t' _ bound] Cons.prems(2) mul add show ?case
    by simp
qed

lemma running_total_exact:
  assumes "\<forall>it\<in>set its. oi_price it \<in> \<int>"
    and "(\<Sum>it\<leftarrow>its. \<bar>oi_price it * of_int (oi_quantity it)\<bar>) < 2 ^ 53"
  shows "running_total its = exact_total its"
  using foldl_total_exact [of 0 its] assms
  by (simp add: running_total_def exact_total_def)

section \<open>Order creation: what a success is\<close>

lemma create_catch_status: "status (create_catch m) \<noteq> 200"
  by (simp add: create_catch_def)

lemma create_order_success:
  assumes "create_order e usr orderId req d = (r, d', evs)" and "status r = 200"
  obtains u evs0 ps orderItems totalAmount intent ord emits where
    "usr = Some u" and "items req \<noteq> []" and "truthy (shippingAddress req)"
    and "process_items (products d) [] 0 [StartTransaction] (items req)
           = (evs0, Inr (ps, orderItems, totalAmount))"
    and "ord = (new_Order (userId u) orderItems totalAmount req)
                 \<lparr>o_stripePaymentIntentId := map_option fst intent\<rparr>"
    and "if paymentMethod req = ''stripe''
         then \<exists>i. createPaymentIntent e totalAmount orderId = Inr i \<and> intent = Some i
         else intent = None"
    and "products d' = ps" and "orders d' = AList.update orderId ord (orders d)"
    and "notifications d' = notifications d
           @ map (new_order_notification orderId) (farmerIds_of ps orderItems)
           @ [order_placed_notification orderId (userId u)]"
    and "emits = (if io e then map (\<lambda>f. Emit f ''new_order'') (farmerIds_of ps orderItems) else [])"
    and "r = Response 200 (OrderCreatedJson orderId ord intent)"
    and "evs = evs0 @ [OrderSave orderId]
                 @ (if paymentMethod req = ''stripe''
                    then [CreatePaymentIntent totalAmount orderId, OrderSave orderId] else [])
                 @ [CommitTransaction] @ emits"
  using assms unfolding create_order_def
  by (auto split: option.splits if_splits prod.splits sum.splits
           simp: create_catch_status Let_def notify_created_def new_Order_def)

section \<open>The order total\<close>

lemma process_items_total:
  "process_items ps acc tot evs its = (evs', Inr (ps', acc', tot')) \<Longrightarrow>
     \<exists>new. acc' = acc @ new
       \<and> tot' = foldl (\<lambda>t it. js_add t (js_mul (oi_price it) (of_int (oi_quantity it)))) tot new"
proof (induction its arbitrary: ps acc tot evs)
  case Nil
  then show ?case by simp
next
  case (Cons item rest)
  from Cons.prems obtain product where
    found: "map_of ps (ri_product item) = Some product"
    and enough: "\<not> p_quantity product < ri_quantity item"
    by (auto split: option.splits if_splits)
  let ?it = "\<lparr>oi_product = ri_product item, oi_quantity = ri_quantity item,
              oi_price = p_price product\<rparr>"
  from Cons.prems found enough have
    "process_items
       (AList.update (ri_product item)
          (product\<lparr>p_quantity := p_quantity product - ri_quantity item\<rparr>) ps)
       (acc @ [?it])
       (js_add tot (js_mul (p_price product) (of_int (ri_quantity item))))
       (evs @ [ProductSave (ri_product item)]) rest = (evs', Inr (ps', acc', tot'))"
    by simp
  from Cons.IH [OF this] obtain new where
    "acc' = (acc @ [?it]) @ new"
    "tot' = foldl (\<lambda>t it. js_add t (js_mul (oi_price it) (of_int (oi_quantity it))))
              (js_add tot (js_mul (p_price product) (of_int (ri_quantity item)))) new"
    by blast
  then show ?case
    by (intro exI [of _ "?it # new"]) simp
qed

lemma map_of_update_price:
  "map_of ps k = Some p \<Longrightarrow>
   map_option p_price (map_of (AList.update k (p\<lparr>p_quantity := q\<rparr>) ps) pid)
     = map_option p_price (map_of ps pid)"
  by (simp add: update_conv')

lemma process_items_prices:
  "process_items ps acc tot evs its = (evs', Inr (ps', acc', tot')) \<Longrightarrow>
   \<forall>pid. map_option p_price (map_of ps pid) = map_option p_price (map_of ps0 pid) \<Longrightarrow>
   \<forall>it\<in>set acc. map_option p_price (map_of ps0 (oi_product it)) = Some (oi_price it) \<Longrightarrow>
   \<forall>it\<in>set acc'. map_option p_price (map_of ps0 (oi_product it)) = Some (oi_price it)"
proof (induction its arbitrary: ps acc tot evs)
  case Nil
  then show ?case by simp
next
  case (Cons item rest)
  from Cons.prems(1) obtain product where
    found: "map_of ps (ri_product item) = Some product"
    and enough: "\<not> p_quantity product < ri_quantity item"
    by (auto split: option.splits if_splits)
  let ?it = "\<lparr>oi_product = ri_product item, oi_quantity = ri_quantity item,
              oi_price = p_price product\<rparr>"
  let ?ps = "AList.update (ri_product item)
               (product\<lparr>p_quantity := p_quantity product - ri_quantity item\<rparr>) ps"
  from Cons.prems(1) found enough have run:
    "process_items ?ps (acc @ [?it])
       (js_add tot (js_mul (p_price product) (of_int (ri_quantity item))))
       (evs @ [ProductSave (ri_product item)]) rest = (evs', Inr (ps', acc', tot'))"
    by simp
  have same: "\<forall>pid. map_option p_price (map_of ?ps pid) = map_option p_price (map_of ps0 pid)"
    using Cons.prems(2) map_of_update_price [OF found] by simp
  have "map_option p_price (map_of ps0 (ri_product item)) = Some (p_price product)"
    using Cons.prems(2) found by (metis option.simps(9))
  then have acc: "\<forall>it\<in>set (acc @ [?it]).
      map_option p_price (map_of ps0 (oi_product it)) = Some (oi_price it)"
    using Cons.prems(3) by simp
  show ?case by (rule Cons.IH [OF run same acc])
qed

text \<open>
  C5 (as amended). For every successfully created order, the persisted \<^verbatim>\<open>totalAmount\<close>
  is the running sum over its items of unit price times quantity, accumulated left to
  right in the language's floating-point arithmetic, each unit price being the product's
  price at reservation. It is the exact sum when the unit prices are whole numbers and
  the amounts add up to less than \<open>2^53\<close>.
\<close>

theorem total_is_running_total:
  assumes "create_order e usr orderId req d = (r, d', evs)" and "status r = 200"
  shows "\<exists>ord. map_of (orders d') orderId = Some ord
           \<and> o_totalAmount ord = running_total (o_items ord)
           \<and> (\<forall>it\<in>set (o_items ord).
                 map_option p_price (map_of (products d) (oi_product it)) = Some (oi_price it))
           \<and> ((\<forall>it\<in>set (o_items ord). oi_price it \<in> \<int>)
                \<and> (\<Sum>it\<leftarrow>o_items ord. \<bar>oi_price it * of_int (oi_quantity it)\<bar>) < 2 ^ 53
               \<longrightarrow> o_totalAmount ord = exact_total (o_items ord))"
  using assms
proof (rule create_order_success)
  fix u evs0 ps orderItems totalAmount intent ord
  assume run: "process_items (products d) [] 0 [StartTransaction] (items req)
            = (evs0, Inr (ps, orderItems, totalAmount))"
    and ord: "ord = (new_Order (userId u) orderItems totalAmount req)
                 \<lparr>o_stripePaymentIntentId := map_option fst intent\<rparr>"
    and saved: "orders d' = AList.update orderId ord (orders d)"
  from ord have its: "o_items ord = orderItems" and tot: "o_totalAmount ord = totalAmount"
    by (simp_all add: new_Order_def)
  have "map_of (orders d') orderId = Some ord"
    using saved by (simp add: update_conv')
  moreover have "o_totalAmount ord = running_total (o_items ord)"
    using process_items_total [OF run] its tot by (auto simp: running_total_def)
  moreover have "\<forall>it\<in>set (o_items ord).
      map_option p_price (map_of (products d) (oi_product it)) = Some (oi_price it)"
    using process_items_prices [OF run, of "products d"] its by simp
  moreover have "(\<forall>it\<in>set (o_items ord). oi_price it \<in> \<int>)
                \<and> (\<Sum>it\<leftarrow>o_items ord. \<bar>oi_price it * of_int (oi_quantity it)\<bar>) < 2 ^ 53
               \<longrightarrow> running_total (o_items ord) = exact_total (o_items ord)"
    using running_total_exact [of "o_items ord"] by blast
  ultimately show ?thesis by auto
qed

text \<open>
  C5 as stated fails: three units of eggs at 0.1 are persisted with the total
  0.30000000000000004 (\<open>1351079888211149 / 2^52\<close>), which is not the exact product of the
  unit price and the quantity.
\<close>

theorem total_not_exact_counterexample:
  "status (fst (create_order env_ok (Some buyer) ''order000001'' eggs_request market)) = 200
   \<and> map_of (orders (fst (snd (create_order env_ok (Some buyer) ''order000001''
                                  eggs_request market)))) ''order000001'' = Some eggs_order
   \<and> o_totalAmount eggs_order = 1351079888211149 / 4503599627370496
   \<and> exact_total (o_items eggs_order) = 10808639105689191 / 36028797018963968
   \<and> o_totalAmount eggs_order \<noteq> exact_total (o_items eggs_order)"
  by code_simp


text \<open>
  The amended C5 at the eggs order, and at the basket order, whose prices are whole and
  whose total is the exact 25.
\<close>

theorem total_is_running_total_witness:
  "status (fst (create_order env_ok (Some buyer) ''order000001'' eggs_request market)) = 200
   \<and> (\<exists>ord. map_of (orders (fst (snd (create_order env_ok (Some buyer) ''order000001''
                                  eggs_request market)))) ''order000001'' = Some ord
           \<and> o_totalAmount ord = running_total (o_items ord)
           \<and> (\<forall>it\<in>set (o_items ord).
                 map_option p_price (map_of (products market) (oi_product it)) = Some (oi_price it)))
   \<and> status (fst (create_order env_ok (Some buyer) ''order000003'' basket_request market)) = 200
   \<and> map_of (orders (fst (snd (create_order env_ok (Some buyer) ''order000003''
                                  basket_request market)))) ''order000003'' = Some basket_order
   \<and> list_all (\<lambda>it. oi_price it \<in> \<int>) (o_items basket_order)
   \<and> (\<Sum>it\<leftarrow>o_items basket_order. \<bar>oi_price it * of_int (oi_quantity it)\<bar>) < 2 ^ 53
   \<and> o_totalAmount basket_order = exact_total (o_items basket_order)
   \<and> o_totalAmount basket_order = 25"
proof -
  let ?X = "create_order env_ok (Some buyer) ''order000001'' eggs_request market"
  let ?Y = "create_order env_ok (Some buyer) ''order000003'' basket_request market"
  have eqX: "?X = (fst ?X, fst (snd ?X), snd (snd ?X))" by simp
  have eqY: "?Y = (fst ?Y, fst (snd ?Y), snd (snd ?Y))" by simp
  have okX: "status (fst ?X) = 200" by code_simp
  have okY: "status (fst ?Y) = 200" by code_simp
  have basket: "map_of (orders (fst (snd ?Y))) ''order000003'' = Some basket_order"
    by code_simp
  have whole: "\<forall>it\<in>set (o_items basket_order). oi_price it \<in> \<int>"
    by (simp add: basket_order_def)
  have small: "(\<Sum>it\<leftarrow>o_items basket_order. \<bar>oi_price it * of_int (oi_quantity it)\<bar>) < 2 ^ 53"
    by (simp add: basket_order_def)
  from total_is_running_total [OF eqX okX] have
    "\<exists>ord. map_of (orders (fst (snd ?X))) ''order000001'' = Some ord
           \<and> o_totalAmount ord = running_total (o_items ord)
           \<and> (\<forall>it\<in>set (o_items ord).
                 map_option p_price (map_of (products market) (oi_product it)) = Some (oi_price it))"
    by blast
  moreover from total_is_running_total [OF eqY okY] basket whole small have
    "o_totalAmount basket_order = exact_total (o_items basket_order)"
    by auto
  moreover have "o_totalAmount basket_order = 25" by (simp add: basket_order_def)
  ultimately show ?thesis
    using okX okY basket whole small unfolding list_all_iff by blast
qed

section \<open>Order creation is all or nothing\<close>

lemma includes_not_found: "str_includes (''Product '' @ x @ '' not found'') ''not found''"
proof -
  have "''Product '' @ x @ '' not found'' = (''Product '' @ x @ '' '') @ ''not found'' @ []"
    by simp
  then show ?thesis
    unfolding str_includes_def by (metis sublist_appendI)
qed

lemma includes_insufficient: "str_includes (''Insufficient stock for '' @ n) ''Insufficient stock''"
proof -
  have "''Insufficient stock for '' @ n = [] @ ''Insufficient stock'' @ ('' for '' @ n)"
    by simp
  then show ?thesis
    unfolding str_includes_def by (metis sublist_appendI)
qed

lemma create_catch_not_found:
  "create_catch (''Product '' @ x @ '' not found'')
     = Response 400 (ErrorJson (''Product '' @ x @ '' not found''))"
  using includes_not_found [of x] by (simp add: create_catch_def)

lemma create_catch_insufficient:
  "create_catch (''Insufficient stock for '' @ n)
     = Response 400 (ErrorJson (''Insufficient stock for '' @ n))"
  using includes_insufficient [of n] by (simp add: create_catch_def)

lemma requested_quantity_Cons:
  "requested_quantity pid (it # its)
     = (if ri_product it = pid then ri_quantity it else 0) + requested_quantity pid its"
  by (simp add: requested_quantity_def)

lemma requested_quantity_Nil: "requested_quantity pid [] = 0"
  by (simp add: requested_quantity_def)

lemma process_items_error:
  "process_items ps acc tot evs its = (evs', Inl m) \<Longrightarrow>
   \<exists>pre it post. its = pre @ it # post
     \<and> (\<forall>x\<in>set pre. map_of ps (ri_product x) \<noteq> None)
     \<and> (case map_of ps (ri_product it) of
           None \<Rightarrow> m = ''Product '' @ ri_product it @ '' not found''
         | Some p \<Rightarrow> p_quantity p - requested_quantity (ri_product it) pre < ri_quantity it
                      \<and> m = ''Insufficient stock for '' @ p_name p)"
proof (induction its arbitrary: ps acc tot evs)
  case Nil
  then show ?case by simp
next
  case (Cons item rest)
  let ?k = "ri_product item"
  show ?case
  proof (cases "map_of ps ?k")
    case None
    with Cons.prems have "m = ''Product '' @ ?k @ '' not found''" by simp
    with None show ?thesis
      by (intro exI [of _ "[]"] exI [of _ item] exI [of _ rest]) simp
  next
    case (Some product)
    show ?thesis
    proof (cases "p_quantity product < ri_quantity item")
      case True
      with Cons.prems Some have "m = ''Insufficient stock for '' @ p_name product" by simp
      with Some True show ?thesis
        by (intro exI [of _ "[]"] exI [of _ item] exI [of _ rest])
           (simp add: requested_quantity_Nil)
    next
      case False
      let ?ps = "AList.update ?k (product\<lparr>p_quantity := p_quantity product - ri_quantity item\<rparr>) ps"
      from Cons.prems Some False have
        "process_items ?ps
           (acc @ [\<lparr>oi_product = ?k, oi_quantity = ri_quantity item, oi_price = p_price product\<rparr>])
           (js_add tot (js_mul (p_price product) (of_int (ri_quantity item))))
           (evs @ [ProductSave ?k]) rest = (evs', Inl m)"
        by simp
      from Cons.IH [OF this] obtain pre it post where
        split: "rest = pre @ it # post"
        and pre: "\<forall>x\<in>set pre. map_of ?ps (ri_product x) \<noteq> None"
        and it: "case map_of ?ps (ri_product it) of
                   None \<Rightarrow> m = ''Product '' @ ri_product it @ '' not found''
                 | Some p \<Rightarrow> p_quantity p - requested_quantity (ri_product it) pre < ri_quantity it
                              \<and> m = ''Insufficient stock for '' @ p_name p"
        by blast
      have pre': "\<forall>x\<in>set (item # pre). map_of ps (ri_product x) \<noteq> None"
        using pre Some by (auto simp: update_conv' split: if_splits)
      have it': "case map_of ps (ri_product it) of
                   None \<Rightarrow> m = ''Product '' @ ri_product it @ '' not found''
                 | Some p \<Rightarrow> p_quantity p - requested_quantity (ri_product it) (item # pre)
                                < ri_quantity it
                              \<and> m = ''Insufficient stock for '' @ p_name p"
        using it Some
        by (auto simp: update_conv' requested_quantity_Cons split: if_splits option.splits)
      from split pre' it' show ?thesis
        by (intro exI [of _ "item # pre"] exI [of _ it] exI [of _ post]) simp
    qed
  qed
qed

lemma process_items_success:
  "process_items ps acc tot evs its = (evs', Inr (ps', acc', tot')) \<Longrightarrow>
   (\<forall>it\<in>set its. map_of ps (ri_product it) \<noteq> None)
   \<and> (\<forall>pid. map_of ps' pid
          = map_option (\<lambda>p. p\<lparr>p_quantity := p_quantity p - requested_quantity pid its\<rparr>)
              (map_of ps pid))
   \<and> (\<forall>it\<in>set its. \<forall>p. map_of ps' (ri_product it) = Some p \<longrightarrow> 0 \<le> p_quantity p)"
proof (induction its arbitrary: ps acc tot evs)
  case Nil
  then show ?case by (auto simp: requested_quantity_Nil option.map_ident)
next
  case (Cons item rest)
  let ?k = "ri_product item"
  from Cons.prems obtain product where
    found: "map_of ps ?k = Some product"
    and enough: "\<not> p_quantity product < ri_quantity item"
    by (auto split: option.splits if_splits)
  let ?ps = "AList.update ?k (product\<lparr>p_quantity := p_quantity product - ri_quantity item\<rparr>) ps"
  from Cons.prems found enough have
    "process_items ?ps
       (acc @ [\<lparr>oi_product = ?k, oi_quantity = ri_quantity item, oi_price = p_price product\<rparr>])
       (js_add tot (js_mul (p_price product) (of_int (ri_quantity item))))
       (evs @ [ProductSave ?k]) rest = (evs', Inr (ps', acc', tot'))"
    by simp
  from Cons.IH [OF this] have
    ex: "\<forall>it\<in>set rest. map_of ?ps (ri_product it) \<noteq> None"
    and qty: "\<forall>pid. map_of ps' pid
          = map_option (\<lambda>p. p\<lparr>p_quantity := p_quantity p - requested_quantity pid rest\<rparr>)
              (map_of ?ps pid)"
    and nonneg: "\<forall>it\<in>set rest. \<forall>p. map_of ps' (ri_product it) = Some p \<longrightarrow> 0 \<le> p_quantity p"
    by blast+
  have 1: "\<forall>it\<in>set (item # rest). map_of ps (ri_product it) \<noteq> None"
    using ex found by (auto simp: update_conv' split: if_splits)
  have 2: "\<forall>pid. map_of ps' pid
          = map_option (\<lambda>p. p\<lparr>p_quantity := p_quantity p - requested_quantity pid (item # rest)\<rparr>)
              (map_of ps pid)"
    using qty found
    by (auto simp: update_conv' requested_quantity_Cons option.map_comp o_def algebra_simps
             intro!: arg_cong [where f = "\<lambda>f. map_option f _"])
  have 3: "\<forall>it\<in>set (item # rest). \<forall>p. map_of ps' (ri_product it) = Some p \<longrightarrow> 0 \<le> p_quantity p"
  proof (cases "?k \<in> ri_product ` set rest")
    case True
    with nonneg show ?thesis by auto
  next
    case False
    then have "requested_quantity ?k rest = 0"
      by (induction rest) (auto simp: requested_quantity_Cons requested_quantity_Nil)
    with qty found enough have "\<forall>p. map_of ps' ?k = Some p \<longrightarrow> 0 \<le> p_quantity p"
      by (auto simp: update_conv')
    with nonneg show ?thesis by auto
  qed
  from 1 2 3 show ?case by blast
qed

lemma item_le_requested_quantity:
  "\<forall>x\<in>set its. 0 \<le> ri_quantity x \<Longrightarrow> it \<in> set its \<Longrightarrow>
   ri_quantity it \<le> requested_quantity (ri_product it) its"
proof (induction its)
  case Nil
  then show ?case by simp
next
  case (Cons a its)
  have nonneg: "0 \<le> requested_quantity (ri_product it) its"
    using Cons.prems(1) unfolding requested_quantity_def
    by (intro sum_list_nonneg) auto
  show ?case
  proof (cases "it = a")
    case True
    with nonneg show ?thesis by (simp add: requested_quantity_Cons)
  next
    case False
    with Cons have "ri_quantity it \<le> requested_quantity (ri_product it) its" by simp
    with Cons.prems(1) show ?thesis by (simp add: requested_quantity_Cons)
  qed
qed

lemma create_order_failure:
  assumes "create_order e usr orderId req d = (r, d', evs)" and "status r \<noteq> 200"
  shows "d' = d"
  using assms unfolding create_order_def
  by (auto split: option.splits if_splits prod.splits sum.splits
           simp: Let_def notify_created_def)

lemma create_order_loop_error:
  assumes "create_order e (Some u) orderId req d = (r, d', evs)"
    and "items req \<noteq> []" and "truthy (shippingAddress req)"
    and "process_items (products d) [] 0 [StartTransaction] (items req) = (evs0, Inl m)"
  shows "r = create_catch m \<and> d' = d \<and> evs = evs0 @ [AbortTransaction]"
  using assms unfolding create_order_def by simp

text \<open>
  C2. Whatever makes order creation fail, the database is left as it was: no stock
  changed, no order persisted, no notification written. For an authenticated request with
  items and a shipping address, if some item's product is absent, or (quantities being
  non-negative) some item asks for more than the product's available quantity, creation
  fails with status 400, and the error is that of the first offending item in input order:
  \<^verbatim>\<open>Product ... not found\<close> if its product is absent,
  \<^verbatim>\<open>Insufficient stock for\<close> followed by the product's name if what is left of the
  product after the items before it is less than the item asks for. Creation succeeds only
  when every item's product exists and holds at least the quantity requested of it.
\<close>

theorem creation_all_or_nothing:
  assumes run: "create_order e usr orderId req d = (r, d', evs)"
  shows "(status r \<noteq> 200 \<longrightarrow> d' = d)
    \<and> (usr \<noteq> None \<and> items req \<noteq> [] \<and> truthy (shippingAddress req)
        \<and> ((\<exists>it\<in>set (items req). map_of (products d) (ri_product it) = None)
           \<or> ((\<forall>it\<in>set (items req). 0 \<le> ri_quantity it)
              \<and> (\<exists>it\<in>set (items req). \<exists>p. map_of (products d) (ri_product it) = Some p
                    \<and> p_quantity p < ri_quantity it)))
        \<longrightarrow> d' = d
          \<and> (\<exists>pre it post. items req = pre @ it # post
                \<and> (\<forall>x\<in>set pre. map_of (products d) (ri_product x) \<noteq> None)
                \<and> (case map_of (products d) (ri_product it) of
                      None \<Rightarrow>
                        r = Response 400 (ErrorJson (''Product '' @ ri_product it @ '' not found''))
                    | Some p \<Rightarrow>
                        p_quantity p - requested_quantity (ri_product it) pre < ri_quantity it
                        \<and> r = Response 400 (ErrorJson (''Insufficient stock for '' @ p_name p)))))
    \<and> (status r = 200
        \<longrightarrow> (\<forall>it\<in>set (items req). \<exists>p. map_of (products d) (ri_product it) = Some p
               \<and> requested_quantity (ri_product it) (items req) \<le> p_quantity p))"
proof -
  have A: "status r \<noteq> 200 \<longrightarrow> d' = d"
    using run by (auto dest: create_order_failure)
  have C: "status r = 200
        \<longrightarrow> (\<forall>it\<in>set (items req). \<exists>p. map_of (products d) (ri_product it) = Some p
               \<and> requested_quantity (ri_product it) (items req) \<le> p_quantity p)"
  proof
  assume ok: "status r = 200"
  from run ok show "\<forall>it\<in>set (items req). \<exists>p. map_of (products d) (ri_product it) = Some p
               \<and> requested_quantity (ri_product it) (items req) \<le> p_quantity p"
  proof (rule create_order_success)
    fix evs0 ps orderItems totalAmount
    assume "process_items (products d) [] 0 [StartTransaction] (items req)
              = (evs0, Inr (ps, orderItems, totalAmount))"
    from process_items_success [OF this] show ?thesis
      by (fastforce)
  qed
  qed
  have B: "usr \<noteq> None \<and> items req \<noteq> [] \<and> truthy (shippingAddress req)
        \<and> ((\<exists>it\<in>set (items req). map_of (products d) (ri_product it) = None)
           \<or> ((\<forall>it\<in>set (items req). 0 \<le> ri_quantity it)
              \<and> (\<exists>it\<in>set (items req). \<exists>p. map_of (products d) (ri_product it) = Some p
                    \<and> p_quantity p < ri_quantity it)))
        \<longrightarrow> d' = d
          \<and> (\<exists>pre it post. items req = pre @ it # post
                \<and> (\<forall>x\<in>set pre. map_of (products d) (ri_product x) \<noteq> None)
                \<and> (case map_of (products d) (ri_product it) of
                      None \<Rightarrow>
                        r = Response 400 (ErrorJson (''Product '' @ ri_product it @ '' not found''))
                    | Some p \<Rightarrow>
                        p_quantity p - requested_quantity (ri_product it) pre < ri_quantity it
                        \<and> r = Response 400 (ErrorJson (''Insufficient stock for '' @ p_name p))))"
  proof
  assume hyp: "usr \<noteq> None \<and> items req \<noteq> [] \<and> truthy (shippingAddress req)
        \<and> ((\<exists>it\<in>set (items req). map_of (products d) (ri_product it) = None)
           \<or> ((\<forall>it\<in>set (items req). 0 \<le> ri_quantity it)
              \<and> (\<exists>it\<in>set (items req). \<exists>p. map_of (products d) (ri_product it) = Some p
                    \<and> p_quantity p < ri_quantity it)))"
  then obtain u where usr: "usr = Some u" by auto
  obtain evs0 res where loop:
    "process_items (products d) [] 0 [StartTransaction] (items req) = (evs0, res)"
    by (cases "process_items (products d) [] 0 [StartTransaction] (items req)")
  have "\<exists>m. res = Inl m"
  proof (cases res)
    case (Inl m)
    then show ?thesis by simp
  next
    case (Inr t)
    obtain ps orderItems totalAmount where "t = (ps, orderItems, totalAmount)"
      by (cases t)
    with loop Inr have
      "process_items (products d) [] 0 [StartTransaction] (items req)
         = (evs0, Inr (ps, orderItems, totalAmount))"
      by simp
    from process_items_success [OF this] have
      present: "\<forall>it\<in>set (items req). map_of (products d) (ri_product it) \<noteq> None"
      and left: "\<forall>it\<in>set (items req). \<forall>p. map_of (products d) (ri_product it) = Some p
                   \<longrightarrow> requested_quantity (ri_product it) (items req) \<le> p_quantity p"
      by fastforce+
    from hyp present obtain it p where
      nonneg: "\<forall>x\<in>set (items req). 0 \<le> ri_quantity x"
      and it: "it \<in> set (items req)" "map_of (products d) (ri_product it) = Some p"
              "p_quantity p < ri_quantity it"
      by blast
    from item_le_requested_quantity [OF nonneg it(1)] left it
    have False by fastforce
    then show ?thesis ..
  qed
  then obtain m where res: "res = Inl m" ..
  from create_order_loop_error [OF run [unfolded usr] _ _ loop [unfolded res]] hyp
  have out: "r = create_catch m" "d' = d" by simp_all
  from process_items_error [OF loop [unfolded res]] obtain pre it post where
    split: "items req = pre @ it # post"
    and pre: "\<forall>x\<in>set pre. map_of (products d) (ri_product x) \<noteq> None"
    and it: "case map_of (products d) (ri_product it) of
           None \<Rightarrow> m = ''Product '' @ ri_product it @ '' not found''
         | Some p \<Rightarrow> p_quantity p - requested_quantity (ri_product it) pre < ri_quantity it
                      \<and> m = ''Insufficient stock for '' @ p_name p"
    by blast
  have "case map_of (products d) (ri_product it) of
          None \<Rightarrow> r = Response 400 (ErrorJson (''Product '' @ ri_product it @ '' not found''))
        | Some p \<Rightarrow> p_quantity p - requested_quantity (ri_product it) pre < ri_quantity it
                     \<and> r = Response 400 (ErrorJson (''Insufficient stock for '' @ p_name p))"
    using it out(1) create_catch_not_found create_catch_insufficient
    by (auto split: option.splits)
  with split pre out(2)
  show "d' = d
          \<and> (\<exists>pre it post. items req = pre @ it # post
                \<and> (\<forall>x\<in>set pre. map_of (products d) (ri_product x) \<noteq> None)
                \<and> (case map_of (products d) (ri_product it) of
                      None \<Rightarrow>
                        r = Response 400 (ErrorJson (''Product '' @ ri_product it @ '' not found''))
                    | Some p \<Rightarrow>
                        p_quantity p - requested_quantity (ri_product it) pre < ri_quantity it
                        \<and> r = Response 400 (ErrorJson (''Insufficient stock for '' @ p_name p))))"
    by blast
  qed
  show ?thesis by (rule conjI [OF A conjI [OF B C]])
qed

text \<open>
  C2 at the market: three units of honey (stock 1) are refused with
  \<^verbatim>\<open>Insufficient stock for Honey\<close> and the market is unchanged; two units of apples
  and one of honey are accepted.
\<close>

theorem creation_all_or_nothing_witness:
  "(items honey_request \<noteq> [] \<and> truthy (shippingAddress honey_request)
     \<and> list_all (\<lambda>it. 0 \<le> ri_quantity it) (items honey_request)
     \<and> (\<exists>it\<in>set (items honey_request). \<exists>p.
           map_of (products market) (ri_product it) = Some p \<and> p_quantity p < ri_quantity it))
   \<and> status (fst (create_order env_ok (Some buyer) ''order000002'' honey_request market)) \<noteq> 200
   \<and> fst (snd (create_order env_ok (Some buyer) ''order000002'' honey_request market)) = market
   \<and> (\<exists>pre it post. items honey_request = pre @ it # post
         \<and> (case map_of (products market) (ri_product it) of
               None \<Rightarrow> False
             | Some p \<Rightarrow>
                 fst (create_order env_ok (Some buyer) ''order000002'' honey_request market)
                   = Response 400 (ErrorJson (''Insufficient stock for '' @ p_name p))))
   \<and> fst (create_order env_ok (Some buyer) ''order000002'' honey_request market)
       = Response 400 (ErrorJson ''Insufficient stock for Honey'')
   \<and> status (fst (create_order env_ok (Some buyer) ''order000003'' basket_request market)) = 200
   \<and> list_all (\<lambda>it. \<exists>p.
         map_of (products market) (ri_product it) = Some p
         \<and> requested_quantity (ri_product it) (items basket_request) \<le> p_quantity p)
       (items basket_request)"
proof -
  let ?F = "create_order env_ok (Some buyer) ''order000002'' honey_request market"
  let ?S = "create_order env_ok (Some buyer) ''order000003'' basket_request market"
  have eqF: "?F = (fst ?F, fst (snd ?F), snd (snd ?F))" by simp
  have eqS: "?S = (fst ?S, fst (snd ?S), snd (snd ?S))" by simp
  have hyp: "items honey_request \<noteq> [] \<and> truthy (shippingAddress honey_request)
     \<and> (\<forall>it\<in>set (items honey_request). 0 \<le> ri_quantity it)
     \<and> (\<exists>it\<in>set (items honey_request). \<exists>p.
           map_of (products market) (ri_product it) = Some p \<and> p_quantity p < ri_quantity it)"
    by (simp add: honey_request_def market_def honey_def truthy_def)
  have stF: "status (fst ?F) \<noteq> 200" by code_simp
  have rF: "fst ?F = Response 400 (ErrorJson ''Insufficient stock for Honey'')" by code_simp
  have stS: "status (fst ?S) = 200" by code_simp
  from creation_all_or_nothing [OF eqF] hyp have
    "fst (snd ?F) = market
     \<and> (\<exists>pre it post. items honey_request = pre @ it # post
         \<and> (\<forall>x\<in>set pre. map_of (products market) (ri_product x) \<noteq> None)
         \<and> (case map_of (products market) (ri_product it) of
               None \<Rightarrow> fst ?F = Response 400 (ErrorJson (''Product '' @ ri_product it @ '' not found''))
             | Some p \<Rightarrow>
                 p_quantity p - requested_quantity (ri_product it) pre < ri_quantity it
                 \<and> fst ?F = Response 400 (ErrorJson (''Insufficient stock for '' @ p_name p))))"
    by blast
  with rF have "fst (snd ?F) = market
     \<and> (\<exists>pre it post. items honey_request = pre @ it # post
         \<and> (case map_of (products market) (ri_product it) of
               None \<Rightarrow> False
             | Some p \<Rightarrow> fst ?F = Response 400 (ErrorJson (''Insufficient stock for '' @ p_name p))))"
    by (auto split: option.splits)
  moreover from creation_all_or_nothing [OF eqS] stS
  have "\<forall>it\<in>set (items basket_request). \<exists>p.
         map_of (products market) (ri_product it) = Some p
         \<and> requested_quantity (ri_product it) (items basket_request) \<le> p_quantity p"
    by blast
  ultimately show ?thesis using hyp stF rF stS unfolding list_all_iff by blast
qed

section \<open>The payment callback\<close>

lemma ordered_quantity_Nil: "ordered_quantity pid [] = 0"
  by (simp add: ordered_quantity_def)

lemma ordered_quantity_Cons:
  "ordered_quantity pid (it # its)
     = (if oi_product it = pid then oi_quantity it else 0) + ordered_quantity pid its"
  by (simp add: ordered_quantity_def)

lemma map_of_inc_quantity:
  "map_of (inc_quantity pid n ps) k
     = (if k = pid then map_option (\<lambda>p. p\<lparr>p_quantity := p_quantity p + n\<rparr>) (map_of ps k)
        else map_of ps k)"
  by (auto simp: inc_quantity_def update_conv' split: option.splits)

lemma set_Set_add: "set (Set_add s x) = insert x (set s)"
  by (auto simp: Set_add_def)

lemma distinct_Set_add: "distinct s \<Longrightarrow> distinct (Set_add s x)"
  by (simp add: Set_add_def)

lemma decrement_stock_present:
  "\<forall>it\<in>set its. map_of populated (oi_product it) \<noteq> None \<Longrightarrow>
   \<exists>ps' fs'. decrement_stock populated ps fs its = (ps', Inr fs')
     \<and> (\<forall>pid. map_of ps' pid
            = map_option (\<lambda>p. p\<lparr>p_quantity := p_quantity p - ordered_quantity pid its\<rparr>)
                (map_of ps pid))
     \<and> set fs' = set fs \<union> (seller_set populated its - {[]})
     \<and> (distinct fs \<longrightarrow> distinct fs')"
proof (induction its arbitrary: ps fs)
  case Nil
  then show ?case
    by (simp add: ordered_quantity_Nil seller_set_def option.map_ident)
next
  case (Cons item rest)
  from Cons.prems obtain product where
    found: "map_of populated (oi_product item) = Some product" by auto
  let ?ps = "inc_quantity (oi_product item) (- oi_quantity item) ps"
  let ?fs = "if p_farmer product \<noteq> [] then Set_add fs (p_farmer product) else fs"
  from Cons.prems have "\<forall>it\<in>set rest. map_of populated (oi_product it) \<noteq> None" by simp
  from Cons.IH [OF this, of ?ps ?fs] obtain ps' fs' where
    run: "decrement_stock populated ?ps ?fs rest = (ps', Inr fs')"
    and qty: "\<forall>pid. map_of ps' pid
            = map_option (\<lambda>p. p\<lparr>p_quantity := p_quantity p - ordered_quantity pid rest\<rparr>)
                (map_of ?ps pid)"
    and fs: "set fs' = set ?fs \<union> (seller_set populated rest - {[]})"
    and dist: "distinct ?fs \<longrightarrow> distinct fs'"
    by blast
  have 1: "decrement_stock populated ps fs (item # rest) = (ps', Inr fs')"
    using run found by simp
  have 2: "\<forall>pid. map_of ps' pid
            = map_option (\<lambda>p. p\<lparr>p_quantity := p_quantity p - ordered_quantity pid (item # rest)\<rparr>)
                (map_of ps pid)"
    using qty
    by (auto simp: map_of_inc_quantity ordered_quantity_Cons option.map_comp o_def algebra_simps
             intro!: arg_cong [where f = "\<lambda>f. map_option f _"])
  have sellers: "seller_set populated (item # rest)
                   = insert (p_farmer product) (seller_set populated rest)"
    using found by (auto simp: seller_set_def)
  have 3: "set fs' = set fs \<union> (seller_set populated (item # rest) - {[]})"
    using fs sellers by (auto simp: set_Set_add)
  have 4: "distinct fs \<longrightarrow> distinct fs'"
    using dist by (simp add: distinct_Set_add)
  from 1 2 3 4 show ?case by blast
qed

lemma trigger_all_eq:
  "trigger_all e evs fs
     = (evs @ map (\<lambda>f. PusherTrigger (farmer_channel f))
                (takeWhile (\<lambda>f. pusher_trigger e (farmer_channel f) = None) fs),
        (case dropWhile (\<lambda>f. pusher_trigger e (farmer_channel f) = None) fs of
           [] \<Rightarrow> None
         | f # rest \<Rightarrow> pusher_trigger e (farmer_channel f)))"
  by (induction fs arbitrary: evs) (auto split: option.splits)


lemma stripe_webhook_paid:
  assumes "map_of (orders d) orderId = Some ord" and "o_paymentStatus ord = ''paid''"
    and "orderId \<noteq> []"
  shows "stripe_webhook e (payment_succeeded orderId) d = (Response 200 ReceivedJson, d, [])"
  using assms by (simp add: stripe_webhook_def payment_succeeded_def truthy_def)

lemma stripe_webhook_pending_unfold:
  assumes "map_of (orders d) orderId = Some ord" and "o_paymentStatus ord \<noteq> ''paid''"
    and "orderId \<noteq> []"
    and "decrement_stock (products d) (products d) [] (o_items ord) = (ps', Inr fs')"
  shows "stripe_webhook e (payment_succeeded orderId) d
     = (case trigger_all e [] fs' of
          (evs, Some message) \<Rightarrow>
            (webhook_catch message,
             d\<lparr>products := ps',
               orders := AList.update orderId (ord\<lparr>o_paymentStatus := ''paid''\<rparr>) (orders d)\<rparr>,
             evs)
        | (evs, None) \<Rightarrow>
            (Response 200 ReceivedJson,
             d\<lparr>products := ps',
               orders := AList.update orderId (ord\<lparr>o_paymentStatus := ''paid''\<rparr>) (orders d)\<rparr>,
             evs))"
  using assms by (simp add: stripe_webhook_def payment_succeeded_def truthy_def Let_def)

lemma dropWhile_head_fails: "dropWhile P xs = y # ys \<Longrightarrow> \<not> P y"
  by (metis dropWhile_eq_Cons_conv)

lemma stripe_webhook_pending:
  assumes "map_of (orders d) orderId = Some ord" and "o_paymentStatus ord \<noteq> ''paid''"
    and "orderId \<noteq> []"
    and "\<forall>it\<in>set (o_items ord). map_of (products d) (oi_product it) \<noteq> None"
  shows "\<exists>ps' farmerIds.
     (\<forall>pid. map_of ps' pid
        = map_option (\<lambda>p. p\<lparr>p_quantity := p_quantity p - ordered_quantity pid (o_items ord)\<rparr>)
            (map_of (products d) pid))
     \<and> distinct farmerIds
     \<and> set farmerIds = seller_set (products d) (o_items ord) - {[]}
     \<and> (\<forall>e. stripe_webhook e (payment_succeeded orderId) d
          = ((case dropWhile (\<lambda>f. pusher_trigger e (farmer_channel f) = None) farmerIds of
                [] \<Rightarrow> Response 200 ReceivedJson
              | f # rest \<Rightarrow> webhook_catch (the (pusher_trigger e (farmer_channel f)))),
             d\<lparr>products := ps',
               orders := AList.update orderId (ord\<lparr>o_paymentStatus := ''paid''\<rparr>) (orders d)\<rparr>,
             map (\<lambda>f. PusherTrigger (farmer_channel f))
               (takeWhile (\<lambda>f. pusher_trigger e (farmer_channel f) = None) farmerIds)))"
proof -
  from decrement_stock_present [OF assms(4), of "products d" "[]"] obtain ps' fs' where
    run: "decrement_stock (products d) (products d) [] (o_items ord) = (ps', Inr fs')"
    and qty: "\<forall>pid. map_of ps' pid
        = map_option (\<lambda>p. p\<lparr>p_quantity := p_quantity p - ordered_quantity pid (o_items ord)\<rparr>)
            (map_of (products d) pid)"
    and fs: "set fs' = seller_set (products d) (o_items ord) - {[]}"
    and dist: "distinct fs'"
    by auto
  have "stripe_webhook e (payment_succeeded orderId) d
          = ((case dropWhile (\<lambda>f. pusher_trigger e (farmer_channel f) = None) fs' of
                [] \<Rightarrow> Response 200 ReceivedJson
              | f # rest \<Rightarrow> webhook_catch (the (pusher_trigger e (farmer_channel f)))),
             d\<lparr>products := ps',
               orders := AList.update orderId (ord\<lparr>o_paymentStatus := ''paid''\<rparr>) (orders d)\<rparr>,
             map (\<lambda>f. PusherTrigger (farmer_channel f))
               (takeWhile (\<lambda>f. pusher_trigger e (farmer_channel f) = None) fs'))" for e
  proof (cases "dropWhile (\<lambda>f. pusher_trigger e (farmer_channel f) = None) fs'")
    case Nil
    show ?thesis
      unfolding stripe_webhook_pending_unfold [OF assms(1-3) run] trigger_all_eq Nil
      by simp
  next
    case (Cons f rest)
    from dropWhile_head_fails [OF Cons] obtain message where
      msg: "pusher_trigger e (farmer_channel f) = Some message" by auto
    show ?thesis
      unfolding stripe_webhook_pending_unfold [OF assms(1-3) run] trigger_all_eq Cons
      by (simp add: msg)
  qed
  with qty fs dist show ?thesis by blast
qed

lemma distinct_count_list:
  "distinct xs \<Longrightarrow> count_list xs x = (if x \<in> set xs then 1 else 0)"
  by (induction xs) auto

lemma payment_callback_core:
  assumes "map_of (orders d) orderId = Some ord" and "o_paymentStatus ord = ''pending''"
    and "orderId \<noteq> []"
    and "\<forall>it\<in>set (o_items ord). map_of (products d) (oi_product it) \<noteq> None"
    and "stripe_webhook e (payment_succeeded orderId) d = (r, d', evs)"
  shows "orders d' = AList.update orderId (ord\<lparr>o_paymentStatus := ''paid''\<rparr>) (orders d)
    \<and> notifications d' = notifications d
    \<and> (\<forall>pid. map_of (products d') pid
          = map_option (\<lambda>p. p\<lparr>p_quantity := p_quantity p - ordered_quantity pid (o_items ord)\<rparr>)
              (map_of (products d) pid))"
proof -
  from assms(2) have unpaid: "o_paymentStatus ord \<noteq> ''paid''" by simp
  from stripe_webhook_pending [OF assms(1) unpaid assms(3,4)] assms(5) show ?thesis
    by auto
qed

text \<open>
  C1. For an order whose payment status is pending (its items' products all in the
  catalog, as they are in every reachable database, \<open>reachable_present\<close> below),
  delivering the payment-success callback twice, one delivery after the other,
  has the effect of delivering it once: the first delivery sets the payment status to
  paid and decrements each product by the quantity ordered of it; the second is
  acknowledged with \<^verbatim>\<open>{ received: true }\<close>, changes nothing and dispatches
  nothing. Over both deliveries no seller is dispatched to twice, and when the
  dispatches go through, each distinct seller of the order is dispatched to exactly once.
\<close>

theorem payment_callback_idempotent:
  assumes order: "map_of (orders d) orderId = Some ord"
    and pending: "o_paymentStatus ord = ''pending''"
    and oid: "orderId \<noteq> []"
    and present: "\<forall>it\<in>set (o_items ord). map_of (products d) (oi_product it) \<noteq> None"
    and first: "stripe_webhook e1 (payment_succeeded orderId) d = (r1, d1, evs1)"
    and second: "stripe_webhook e2 (payment_succeeded orderId) d1 = (r2, d2, evs2)"
  shows "orders d1 = AList.update orderId (ord\<lparr>o_paymentStatus := ''paid''\<rparr>) (orders d)
    \<and> (\<forall>pid. map_of (products d1) pid
          = map_option (\<lambda>p. p\<lparr>p_quantity := p_quantity p - ordered_quantity pid (o_items ord)\<rparr>)
              (map_of (products d) pid))
    \<and> d2 = d1 \<and> r2 = Response 200 ReceivedJson \<and> evs2 = []
    \<and> (\<forall>ev. count_list (evs1 @ evs2) ev \<le> 1)
    \<and> set (evs1 @ evs2) \<subseteq> (\<lambda>f. PusherTrigger (farmer_channel f))
                               ` (seller_set (products d) (o_items ord) - {[]})
    \<and> ((\<forall>f\<in>seller_set (products d) (o_items ord). pusher_trigger e1 (farmer_channel f) = None)
        \<longrightarrow> r1 = Response 200 ReceivedJson
          \<and> (\<forall>f\<in>seller_set (products d) (o_items ord) - {[]}.
                count_list (evs1 @ evs2) (PusherTrigger (farmer_channel f)) = 1))"
proof -
  from pending have unpaid: "o_paymentStatus ord \<noteq> ''paid''" by simp
  from stripe_webhook_pending [OF order unpaid oid present] obtain ps' farmerIds where
    qty: "\<forall>pid. map_of ps' pid
        = map_option (\<lambda>p. p\<lparr>p_quantity := p_quantity p - ordered_quantity pid (o_items ord)\<rparr>)
            (map_of (products d) pid)"
    and dist: "distinct farmerIds"
    and sellers: "set farmerIds = seller_set (products d) (o_items ord) - {[]}"
    and run: "\<And>e. stripe_webhook e (payment_succeeded orderId) d
          = ((case dropWhile (\<lambda>f. pusher_trigger e (farmer_channel f) = None) farmerIds of
                [] \<Rightarrow> Response 200 ReceivedJson
              | f # rest \<Rightarrow> webhook_catch (the (pusher_trigger e (farmer_channel f)))),
             d\<lparr>products := ps',
               orders := AList.update orderId (ord\<lparr>o_paymentStatus := ''paid''\<rparr>) (orders d)\<rparr>,
             map (\<lambda>f. PusherTrigger (farmer_channel f))
               (takeWhile (\<lambda>f. pusher_trigger e (farmer_channel f) = None) farmerIds))"
    by blast
  let ?ok = "\<lambda>f. pusher_trigger e1 (farmer_channel f) = None"
  from first run [of e1] have
    r1: "r1 = (case dropWhile ?ok farmerIds of
                [] \<Rightarrow> Response 200 ReceivedJson
              | f # rest \<Rightarrow> webhook_catch (the (pusher_trigger e1 (farmer_channel f))))"
    and d1: "d1 = d\<lparr>products := ps',
               orders := AList.update orderId (ord\<lparr>o_paymentStatus := ''paid''\<rparr>) (orders d)\<rparr>"
    and evs1: "evs1 = map (\<lambda>f. PusherTrigger (farmer_channel f)) (takeWhile ?ok farmerIds)"
    by simp_all
  have paid: "map_of (orders d1) orderId = Some (ord\<lparr>o_paymentStatus := ''paid''\<rparr>)"
    by (simp add: d1 update_conv')
  from second stripe_webhook_paid [OF paid _ oid, of e2] have
    noop: "r2 = Response 200 ReceivedJson" "d2 = d1" "evs2 = []"
    by simp_all
  have "distinct evs1"
    unfolding evs1 using dist
    by (simp add: distinct_map distinct_takeWhile inj_on_def farmer_channel_def)
  then have once: "\<forall>ev. count_list (evs1 @ evs2) ev \<le> 1"
    using noop(3) by (simp add: distinct_count_list)
  have sub: "set (evs1 @ evs2) \<subseteq> (\<lambda>f. PusherTrigger (farmer_channel f))
                               ` (seller_set (products d) (o_items ord) - {[]})"
    unfolding evs1 noop(3) using sellers set_takeWhileD [of _ ?ok farmerIds] by auto
  have allok: "r1 = Response 200 ReceivedJson
          \<and> (\<forall>f\<in>seller_set (products d) (o_items ord) - {[]}.
                count_list (evs1 @ evs2) (PusherTrigger (farmer_channel f)) = 1)"
    if ok: "\<forall>f\<in>seller_set (products d) (o_items ord). pusher_trigger e1 (farmer_channel f) = None"
  proof -
    from ok sellers have all: "\<forall>f\<in>set farmerIds. ?ok f" by auto
    then have tw: "takeWhile ?ok farmerIds = farmerIds" and dw: "dropWhile ?ok farmerIds = []"
      by simp_all
    from r1 dw have "r1 = Response 200 ReceivedJson" by simp
    moreover have "count_list (evs1 @ evs2) (PusherTrigger (farmer_channel f)) = 1"
      if "f \<in> seller_set (products d) (o_items ord) - {[]}" for f
    proof -
      from that sellers have "PusherTrigger (farmer_channel f) \<in> set (evs1 @ evs2)"
        unfolding evs1 tw by auto
      with \<open>distinct evs1\<close> noop(3) show ?thesis
        by (simp add: distinct_count_list)
    qed
    ultimately show ?thesis by blast
  qed
  from d1 qty have stock: "\<forall>pid. map_of (products d1) pid
          = map_option (\<lambda>p. p\<lparr>p_quantity := p_quantity p - ordered_quantity pid (o_items ord)\<rparr>)
              (map_of (products d) pid)"
    by simp
  from d1 have "orders d1 = AList.update orderId (ord\<lparr>o_paymentStatus := ''paid''\<rparr>) (orders d)"
    by simp
  with stock noop once sub allok show ?thesis by blast
qed

lemma webhook_catch_status: "status (webhook_catch m) = 400"
  by (simp add: webhook_catch_def)

text \<open>
  C10. If, on the first delivery of the callback for a pending order, the dispatch to some
  seller's channel fails, the handler answers 400 although the order is stored as paid and
  the stock is decremented; a redelivery takes the already-paid branch, answers 200 and
  dispatches nothing, and so does every later one, whatever the channels then do. The
  sellers from the first failing one on, in iteration order, are never dispatched to.
\<close>

theorem dispatch_failure_is_permanent:
  assumes order: "map_of (orders d) orderId = Some ord"
    and pending: "o_paymentStatus ord = ''pending''"
    and oid: "orderId \<noteq> []"
    and present: "\<forall>it\<in>set (o_items ord). map_of (products d) (oi_product it) \<noteq> None"
    and first: "stripe_webhook e1 (payment_succeeded orderId) d = (r1, d1, evs1)"
    and second: "stripe_webhook e2 (payment_succeeded orderId) d1 = (r2, d2, evs2)"
    and seller: "f \<in> seller_set (products d) (o_items ord)" "f \<noteq> []"
    and fails: "pusher_trigger e1 (farmer_channel f) \<noteq> None"
  shows "status r1 = 400
    \<and> orders d1 = AList.update orderId (ord\<lparr>o_paymentStatus := ''paid''\<rparr>) (orders d)
    \<and> (\<forall>pid. map_of (products d1) pid
          = map_option (\<lambda>p. p\<lparr>p_quantity := p_quantity p - ordered_quantity pid (o_items ord)\<rparr>)
              (map_of (products d) pid))
    \<and> r2 = Response 200 ReceivedJson \<and> d2 = d1 \<and> evs2 = []
    \<and> (\<forall>e3. stripe_webhook e3 (payment_succeeded orderId) d2
                = (Response 200 ReceivedJson, d2, []))
    \<and> PusherTrigger (farmer_channel f) \<notin> set (evs1 @ evs2)
    \<and> (\<exists>reached g skipped.
          distinct (reached @ g # skipped)
          \<and> set (reached @ g # skipped) = seller_set (products d) (o_items ord) - {[]}
          \<and> pusher_trigger e1 (farmer_channel g) \<noteq> None
          \<and> evs1 @ evs2 = map (\<lambda>f. PusherTrigger (farmer_channel f)) reached
          \<and> list_all (\<lambda>h. PusherTrigger (farmer_channel h) \<notin> set (evs1 @ evs2)) (g # skipped))"
proof -
  from pending have unpaid: "o_paymentStatus ord \<noteq> ''paid''" by simp
  from stripe_webhook_pending [OF order unpaid oid present] obtain ps' farmerIds where
    qty: "\<forall>pid. map_of ps' pid
        = map_option (\<lambda>p. p\<lparr>p_quantity := p_quantity p - ordered_quantity pid (o_items ord)\<rparr>)
            (map_of (products d) pid)"
    and dist: "distinct farmerIds"
    and sellers: "set farmerIds = seller_set (products d) (o_items ord) - {[]}"
    and run: "\<And>e. stripe_webhook e (payment_succeeded orderId) d
          = ((case dropWhile (\<lambda>f. pusher_trigger e (farmer_channel f) = None) farmerIds of
                [] \<Rightarrow> Response 200 ReceivedJson
              | f # rest \<Rightarrow> webhook_catch (the (pusher_trigger e (farmer_channel f)))),
             d\<lparr>products := ps',
               orders := AList.update orderId (ord\<lparr>o_paymentStatus := ''paid''\<rparr>) (orders d)\<rparr>,
             map (\<lambda>f. PusherTrigger (farmer_channel f))
               (takeWhile (\<lambda>f. pusher_trigger e (farmer_channel f) = None) farmerIds))"
    by blast
  let ?ok = "\<lambda>f. pusher_trigger e1 (farmer_channel f) = None"
  from first run [of e1] have
    r1: "r1 = (case dropWhile ?ok farmerIds of
                [] \<Rightarrow> Response 200 ReceivedJson
              | f # rest \<Rightarrow> webhook_catch (the (pusher_trigger e1 (farmer_channel f))))"
    and d1: "d1 = d\<lparr>products := ps',
               orders := AList.update orderId (ord\<lparr>o_paymentStatus := ''paid''\<rparr>) (orders d)\<rparr>"
    and evs1: "evs1 = map (\<lambda>f. PusherTrigger (farmer_channel f)) (takeWhile ?ok farmerIds)"
    by simp_all
  have paid: "map_of (orders d1) orderId = Some (ord\<lparr>o_paymentStatus := ''paid''\<rparr>)"
    by (simp add: d1 update_conv')
  from second stripe_webhook_paid [OF paid _ oid, of e2] have
    noop: "r2 = Response 200 ReceivedJson" "d2 = d1" "evs2 = []"
    by simp_all
  from seller sellers fails have "\<exists>x\<in>set farmerIds. \<not> ?ok x" by auto
  then have "dropWhile ?ok farmerIds \<noteq> []" by (simp add: dropWhile_eq_Nil_conv)
  then obtain g skipped where dw: "dropWhile ?ok farmerIds = g # skipped"
    by (cases "dropWhile ?ok farmerIds") auto
  have g: "pusher_trigger e1 (farmer_channel g) \<noteq> None"
    using dropWhile_head_fails [OF dw] .
  let ?reached = "takeWhile ?ok farmerIds"
  have split: "farmerIds = ?reached @ g # skipped"
    using takeWhile_dropWhile_id [of ?ok farmerIds] dw by simp
  have st: "status r1 = 400"
    using r1 dw by (simp add: webhook_catch_status)
  have trace: "evs1 @ evs2 = map (\<lambda>f. PusherTrigger (farmer_channel f)) ?reached"
    using evs1 noop(3) by simp
  have disj: "set ?reached \<inter> set (g # skipped) = {}"
    using dist split by (metis distinct_append)
  have skipped: "list_all (\<lambda>h. PusherTrigger (farmer_channel h) \<notin> set (evs1 @ evs2)) (g # skipped)"
    unfolding trace list_all_iff using disj by (auto simp: farmer_channel_def)
  have "f \<notin> set ?reached"
    using fails set_takeWhileD [of f ?ok farmerIds] by auto
  then have notf: "PusherTrigger (farmer_channel f) \<notin> set (evs1 @ evs2)"
    unfolding trace by (auto simp: farmer_channel_def)
  from d1 qty have stock: "\<forall>pid. map_of (products d1) pid
          = map_option (\<lambda>p. p\<lparr>p_quantity := p_quantity p - ordered_quantity pid (o_items ord)\<rparr>)
              (map_of (products d) pid)"
    by simp
  from d1 have saved:
    "orders d1 = AList.update orderId (ord\<lparr>o_paymentStatus := ''paid''\<rparr>) (orders d)"
    by simp
  have "\<exists>reached g skipped.
          distinct (reached @ g # skipped)
          \<and> set (reached @ g # skipped) = seller_set (products d) (o_items ord) - {[]}
          \<and> pusher_trigger e1 (farmer_channel g) \<noteq> None
          \<and> evs1 @ evs2 = map (\<lambda>f. PusherTrigger (farmer_channel f)) reached
          \<and> list_all (\<lambda>h. PusherTrigger (farmer_channel h) \<notin> set (evs1 @ evs2)) (g # skipped)"
    using dist sellers g trace skipped unfolding split [symmetric]
    by (intro exI [of _ ?reached] exI [of _ g] exI [of _ skipped]) (simp add: split [symmetric])
  moreover have "\<forall>e3. stripe_webhook e3 (payment_succeeded orderId) d2
                = (Response 200 ReceivedJson, d2, [])"
    using stripe_webhook_paid [OF paid _ oid] noop(2) by simp
  ultimately show ?thesis using st saved stock noop notf by blast
qed

lemma stripe_webhook_notifications:
  "notifications (fst (snd (stripe_webhook e req d))) = notifications d"
  by (auto simp: stripe_webhook_def Let_def split: sum.splits option.splits prod.splits)

lemma process_items_items:
  "process_items ps acc tot evs its = (evs', Inr (ps', acc', tot')) \<Longrightarrow>
   ordered_quantity pid acc' = ordered_quantity pid acc + requested_quantity pid its
   \<and> oi_product ` set acc' = oi_product ` set acc \<union> ri_product ` set its"
proof (induction its arbitrary: ps acc tot evs)
  case Nil
  then show ?case by (simp add: requested_quantity_Nil)
next
  case (Cons item rest)
  from Cons.prems obtain product where
    found: "map_of ps (ri_product item) = Some product"
    and enough: "\<not> p_quantity product < ri_quantity item"
    by (auto split: option.splits if_splits)
  let ?it = "\<lparr>oi_product = ri_product item, oi_quantity = ri_quantity item,
              oi_price = p_price product\<rparr>"
  from Cons.prems found enough have
    "process_items
       (AList.update (ri_product item)
          (product\<lparr>p_quantity := p_quantity product - ri_quantity item\<rparr>) ps)
       (acc @ [?it])
       (js_add tot (js_mul (p_price product) (of_int (ri_quantity item))))
       (evs @ [ProductSave (ri_product item)]) rest = (evs', Inr (ps', acc', tot'))"
    by simp
  from Cons.IH [OF this] have
    "ordered_quantity pid acc' = ordered_quantity pid (acc @ [?it]) + requested_quantity pid rest"
    and "oi_product ` set acc' = oi_product ` set (acc @ [?it]) \<union> ri_product ` set rest"
    by blast+
  then show ?case
    by (auto simp: requested_quantity_Cons ordered_quantity_def)
qed

text \<open>
  C4. For an order created with the payment method \<^verbatim>\<open>stripe\<close>, order creation
  decrements every product by the quantity requested of it, and the first processing of
  the payment-success callback decrements it by the same quantity again: after both, the
  stock is the original stock less twice the requested quantity.
\<close>

theorem stock_decremented_twice:
  assumes created: "create_order e usr orderId req d = (r, d1, evs)"
    and ok: "status r = 200"
    and stripe: "paymentMethod req = ''stripe''"
    and oid: "orderId \<noteq> []"
    and callback: "stripe_webhook e' (payment_succeeded orderId) d1 = (r', d2, evs')"
  shows "map_of (products d1) pid
           = map_option (\<lambda>p. p\<lparr>p_quantity := p_quantity p - requested_quantity pid (items req)\<rparr>)
               (map_of (products d) pid)
    \<and> map_of (products d2) pid
           = map_option (\<lambda>p. p\<lparr>p_quantity := p_quantity p - 2 * requested_quantity pid (items req)\<rparr>)
               (map_of (products d) pid)"
  using created ok
proof (rule create_order_success)
  fix u evs0 ps orderItems totalAmount intent ord
  assume loop: "process_items (products d) [] 0 [StartTransaction] (items req)
           = (evs0, Inr (ps, orderItems, totalAmount))"
    and ord: "ord = (new_Order (userId u) orderItems totalAmount req)
                 \<lparr>o_stripePaymentIntentId := map_option fst intent\<rparr>"
    and ps: "products d1 = ps" and saved: "orders d1 = AList.update orderId ord (orders d)"
  from ord have its: "o_items ord = orderItems" and pending: "o_paymentStatus ord = ''pending''"
    by (simp_all add: new_Order_def)
  from process_items_success [OF loop] have
    present: "\<forall>it\<in>set (items req). map_of (products d) (ri_product it) \<noteq> None"
    and reserved: "\<forall>pid. map_of ps pid
          = map_option (\<lambda>p. p\<lparr>p_quantity := p_quantity p - requested_quantity pid (items req)\<rparr>)
              (map_of (products d) pid)"
    by blast+
  from process_items_items [OF loop] have
    same: "\<And>pid. ordered_quantity pid orderItems = requested_quantity pid (items req)"
    and ids: "oi_product ` set orderItems = ri_product ` set (items req)"
    by (simp_all add: ordered_quantity_Nil)
  have order: "map_of (orders d1) orderId = Some ord"
    using saved by (simp add: update_conv')
  have present1: "\<forall>it\<in>set (o_items ord). map_of (products d1) (oi_product it) \<noteq> None"
  proof
    fix it assume "it \<in> set (o_items ord)"
    with its have "oi_product it \<in> oi_product ` set orderItems" by simp
    with ids obtain x where x: "x \<in> set (items req)" "ri_product x = oi_product it"
      by auto
    from present x(1) obtain p where "map_of (products d) (ri_product x) = Some p" by auto
    with reserved ps x(2) show "map_of (products d1) (oi_product it) \<noteq> None" by simp
  qed
  from payment_callback_core [OF order pending oid present1 callback]
  have paid: "map_of (products d2) pid
          = map_option (\<lambda>p. p\<lparr>p_quantity := p_quantity p - ordered_quantity pid (o_items ord)\<rparr>)
              (map_of (products d1) pid)"
    by blast
  from reserved ps have first: "map_of (products d1) pid
          = map_option (\<lambda>p. p\<lparr>p_quantity := p_quantity p - requested_quantity pid (items req)\<rparr>)
              (map_of (products d) pid)"
    by simp
  have "map_of (products d2) pid
           = map_option (\<lambda>p. p\<lparr>p_quantity := p_quantity p - 2 * requested_quantity pid (items req)\<rparr>)
               (map_of (products d) pid)"
  proof (cases "map_of (products d) pid")
    case None
    with paid first show ?thesis by simp
  next
    case (Some p)
    with paid first its same [of pid] show ?thesis by simp
  qed
  with first show ?thesis by simp
qed

lemma basket_market_eq:
  "basket_market =
     \<lparr>products = [(''p1'', apples\<lparr>p_quantity := 3\<rparr>), (''p2'', honey\<lparr>p_quantity := 0\<rparr>),
                  (''p3'', eggs)],
      orders = [(''order000003'', basket_order)],
      notifications = [new_order_notification ''order000003'' ''f1'',
                       new_order_notification ''order000003'' ''f2'',
                       order_placed_notification ''order000003'' ''c1'']\<rparr>"
  by code_simp

lemma basket_sellers:
  "seller_set (products basket_market) (o_items basket_order) = {''f1'', ''f2''}"
  by (auto simp: seller_set_def basket_market_eq basket_order_def apples_def honey_def eggs_def)

text \<open>
  C1 at the market with the basket ordered: the second delivery leaves the database of
  the first and answers 200; seller \<^verbatim>\<open>f2\<close> is dispatched to once.
\<close>

theorem payment_callback_idempotent_witness:
  "map_of (orders basket_market) ''order000003'' = Some basket_order
   \<and> o_paymentStatus basket_order = ''pending''
   \<and> list_all (\<lambda>it. map_of (products basket_market) (oi_product it) \<noteq> None)
        (o_items basket_order)
   \<and> list_all (\<lambda>f. pusher_trigger env_ok (farmer_channel f) = None) [''f1'', ''f2'']
   \<and> fst (snd (stripe_webhook env_ok (payment_succeeded ''order000003'')
         (fst (snd (stripe_webhook env_ok (payment_succeeded ''order000003'') basket_market)))))
       = fst (snd (stripe_webhook env_ok (payment_succeeded ''order000003'') basket_market))
   \<and> fst (stripe_webhook env_ok (payment_succeeded ''order000003'')
         (fst (snd (stripe_webhook env_ok (payment_succeeded ''order000003'') basket_market))))
       = Response 200 ReceivedJson
   \<and> map_of (orders (fst (snd (stripe_webhook env_ok (payment_succeeded ''order000003'')
                                  basket_market)))) ''order000003''
       = Some (basket_order\<lparr>o_paymentStatus := ''paid''\<rparr>)
   \<and> count_list
        (snd (snd (stripe_webhook env_ok (payment_succeeded ''order000003'') basket_market))
         @ snd (snd (stripe_webhook env_ok (payment_succeeded ''order000003'')
             (fst (snd (stripe_webhook env_ok (payment_succeeded ''order000003'')
                          basket_market))))))
        (PusherTrigger (farmer_channel ''f2'')) = 1"
proof -
  let ?W1 = "stripe_webhook env_ok (payment_succeeded ''order000003'') basket_market"
  let ?W2 = "stripe_webhook env_ok (payment_succeeded ''order000003'') (fst (snd ?W1))"
  have order: "map_of (orders basket_market) ''order000003'' = Some basket_order"
    by (simp add: basket_market_eq)
  have pending: "o_paymentStatus basket_order = ''pending''"
    by (simp add: basket_order_def)
  have oid: "''order000003'' \<noteq> []" by simp
  have present: "\<forall>it\<in>set (o_items basket_order).
                   map_of (products basket_market) (oi_product it) \<noteq> None"
    by (simp add: basket_market_eq basket_order_def)
  have allok: "\<forall>f\<in>seller_set (products basket_market) (o_items basket_order).
                 pusher_trigger env_ok (farmer_channel f) = None"
    by (simp add: env_ok_def pusher_ok_def)
  have eq1: "?W1 = (fst ?W1, fst (snd ?W1), snd (snd ?W1))" by simp
  have eq2: "?W2 = (fst ?W2, fst (snd ?W2), snd (snd ?W2))" by simp
  note T = payment_callback_idempotent [OF order pending oid present eq1 eq2]
  from T have "fst (snd ?W2) = fst (snd ?W1)" and "fst ?W2 = Response 200 ReceivedJson"
    by blast+
  moreover from T have "map_of (orders (fst (snd ?W1))) ''order000003''
       = Some (basket_order\<lparr>o_paymentStatus := ''paid''\<rparr>)"
    by (simp add: update_conv')
  moreover have
    "count_list (snd (snd ?W1) @ snd (snd ?W2)) (PusherTrigger (farmer_channel ''f2'')) = 1"
  proof -
    from T allok have
      "\<forall>f\<in>seller_set (products basket_market) (o_items basket_order) - {[]}.
         count_list (snd (snd ?W1) @ snd (snd ?W2)) (PusherTrigger (farmer_channel f)) = 1"
      by blast
    moreover have "''f2'' \<in> seller_set (products basket_market) (o_items basket_order) - {[]}"
      by (simp add: basket_sellers)
    ultimately show ?thesis by blast
  qed
  ultimately show ?thesis
    using order pending present allok unfolding list_all_iff basket_sellers by simp
qed

text \<open>
  C10 at the market with the basket ordered, the channel of \<^verbatim>\<open>f1\<close> down: the first
  delivery answers 400 with the order paid and no dispatch at all (the working channel of
  \<^verbatim>\<open>f2\<close> is never tried), the redelivery is a no-op.
\<close>

theorem dispatch_failure_is_permanent_witness:
  "map_of (orders basket_market) ''order000003'' = Some basket_order
   \<and> o_paymentStatus basket_order = ''pending''
   \<and> list_all (\<lambda>it. map_of (products basket_market) (oi_product it) \<noteq> None)
        (o_items basket_order)
   \<and> ''f1'' \<in> seller_set (products basket_market) (o_items basket_order)
   \<and> pusher_trigger env_f1_down (farmer_channel ''f1'') \<noteq> None
   \<and> pusher_trigger env_f1_down (farmer_channel ''f2'') = None
   \<and> status (fst (stripe_webhook env_f1_down (payment_succeeded ''order000003'') basket_market))
       = 400
   \<and> map_of (orders (fst (snd (stripe_webhook env_f1_down (payment_succeeded ''order000003'')
                                  basket_market)))) ''order000003''
       = Some (basket_order\<lparr>o_paymentStatus := ''paid''\<rparr>)
   \<and> stripe_webhook env_ok (payment_succeeded ''order000003'')
         (fst (snd (stripe_webhook env_f1_down (payment_succeeded ''order000003'') basket_market)))
       = (Response 200 ReceivedJson,
          fst (snd (stripe_webhook env_f1_down (payment_succeeded ''order000003'') basket_market)),
          [])
   \<and> snd (snd (stripe_webhook env_f1_down (payment_succeeded ''order000003'') basket_market))
       = []"
proof -
  let ?W1 = "stripe_webhook env_f1_down (payment_succeeded ''order000003'') basket_market"
  let ?W2 = "stripe_webhook env_ok (payment_succeeded ''order000003'') (fst (snd ?W1))"
  have order: "map_of (orders basket_market) ''order000003'' = Some basket_order"
    by (simp add: basket_market_eq)
  have pending: "o_paymentStatus basket_order = ''pending''"
    by (simp add: basket_order_def)
  have oid: "''order000003'' \<noteq> []" by simp
  have present: "\<forall>it\<in>set (o_items basket_order).
                   map_of (products basket_market) (oi_product it) \<noteq> None"
    by (simp add: basket_market_eq basket_order_def)
  have seller: "''f1'' \<in> seller_set (products basket_market) (o_items basket_order)"
    and f1: "''f1'' \<noteq> []"
    by (simp_all add: basket_sellers)
  have fails: "pusher_trigger env_f1_down (farmer_channel ''f1'') \<noteq> None"
    by (simp add: env_f1_down_def pusher_f1_down_def farmer_channel_def)
  have fine: "pusher_trigger env_f1_down (farmer_channel ''f2'') = None"
    by (simp add: env_f1_down_def pusher_f1_down_def farmer_channel_def)
  have eq1: "?W1 = (fst ?W1, fst (snd ?W1), snd (snd ?W1))" by simp
  have eq2: "?W2 = (fst ?W2, fst (snd ?W2), snd (snd ?W2))" by simp
  note T = dispatch_failure_is_permanent [OF order pending oid present eq1 eq2 seller f1 fails]
  from T have st: "status (fst ?W1) = 400" by blast
  from T have paid: "map_of (orders (fst (snd ?W1))) ''order000003''
       = Some (basket_order\<lparr>o_paymentStatus := ''paid''\<rparr>)"
    by (simp add: update_conv')
  from T have "fst ?W2 = Response 200 ReceivedJson" "fst (snd ?W2) = fst (snd ?W1)"
    "snd (snd ?W2) = []"
    by blast+
  with eq2 have noop: "?W2 = (Response 200 ReceivedJson, fst (snd ?W1), [])" by simp
  have none: "snd (snd ?W1) = []" by code_simp
  from order pending present seller fails fine st paid noop none show ?thesis
    unfolding list_all_iff by blast
qed

text \<open>
  C4 at the market: two units of apples ordered out of five leave three at creation and
  one after the callback.
\<close>

theorem stock_decremented_twice_witness:
  "status (fst (create_order env_ok (Some buyer) ''order000003'' basket_request market)) = 200
   \<and> paymentMethod basket_request = ''stripe''
   \<and> map_of (products market) ''p1'' = Some apples
   \<and> p_quantity apples = 5
   \<and> requested_quantity ''p1'' (items basket_request) = 2
   \<and> map_of (products (fst (snd (create_order env_ok (Some buyer) ''order000003''
                                     basket_request market)))) ''p1''
       = Some (apples\<lparr>p_quantity := 3\<rparr>)
   \<and> map_of (products (fst (snd (stripe_webhook env_ok (payment_succeeded ''order000003'')
         (fst (snd (create_order env_ok (Some buyer) ''order000003''
                      basket_request market))))))) ''p1''
       = Some (apples\<lparr>p_quantity := 1\<rparr>)"
proof -
  let ?C = "create_order env_ok (Some buyer) ''order000003'' basket_request market"
  let ?W = "stripe_webhook env_ok (payment_succeeded ''order000003'') (fst (snd ?C))"
  have eqC: "?C = (fst ?C, fst (snd ?C), snd (snd ?C))" by simp
  have eqW: "?W = (fst ?W, fst (snd ?W), snd (snd ?W))" by simp
  have ok: "status (fst ?C) = 200" by code_simp
  have stripe: "paymentMethod basket_request = ''stripe''" by (simp add: basket_request_def)
  have oid: "''order000003'' \<noteq> []" by simp
  have p1: "map_of (products market) ''p1'' = Some apples" by (simp add: market_def)
  have five: "p_quantity apples = 5" by (simp add: apples_def)
  have two: "requested_quantity ''p1'' (items basket_request) = 2"
    by (simp add: requested_quantity_def basket_request_def)
  from stock_decremented_twice [OF eqC ok stripe oid eqW, of "''p1''"] p1 five two
  have "map_of (products (fst (snd ?C))) ''p1'' = Some (apples\<lparr>p_quantity := 3\<rparr>)
      \<and> map_of (products (fst (snd ?W))) ''p1'' = Some (apples\<lparr>p_quantity := 1\<rparr>)"
    by simp
  with ok stripe p1 five two show ?thesis by blast
qed


text \<open>
  C6 (as amended). When the payment-success callback is processed for a pending order, the
  handler writes no record to the notification ledger (it never does,
  \<open>stripe_webhook_notifications\<close>); it only triggers the real-time
  dispatch, to channels of sellers of the order, and when the triggers go through, to each
  distinct seller exactly once.
\<close>

theorem payment_callback_dispatch_only:
  assumes order: "map_of (orders d) orderId = Some ord"
    and pending: "o_paymentStatus ord = ''pending''"
    and oid: "orderId \<noteq> []"
    and present: "\<forall>it\<in>set (o_items ord). map_of (products d) (oi_product it) \<noteq> None"
    and run: "stripe_webhook e (payment_succeeded orderId) d = (r, d', evs)"
  shows "notifications d' = notifications d
    \<and> set evs \<subseteq> (\<lambda>f. PusherTrigger (farmer_channel f))
                    ` (seller_set (products d) (o_items ord) - {[]})
    \<and> ((\<forall>f\<in>seller_set (products d) (o_items ord). pusher_trigger e (farmer_channel f) = None)
        \<longrightarrow> (\<forall>f\<in>seller_set (products d) (o_items ord) - {[]}.
               count_list evs (PusherTrigger (farmer_channel f)) = 1))"
proof -
  from pending have unpaid: "o_paymentStatus ord \<noteq> ''paid''" by simp
  from stripe_webhook_pending [OF order unpaid oid present] obtain ps' farmerIds where
    dist: "distinct farmerIds"
    and sellers: "set farmerIds = seller_set (products d) (o_items ord) - {[]}"
    and step: "\<And>e. stripe_webhook e (payment_succeeded orderId) d
          = ((case dropWhile (\<lambda>f. pusher_trigger e (farmer_channel f) = None) farmerIds of
                [] \<Rightarrow> Response 200 ReceivedJson
              | f # rest \<Rightarrow> webhook_catch (the (pusher_trigger e (farmer_channel f)))),
             d\<lparr>products := ps',
               orders := AList.update orderId (ord\<lparr>o_paymentStatus := ''paid''\<rparr>) (orders d)\<rparr>,
             map (\<lambda>f. PusherTrigger (farmer_channel f))
               (takeWhile (\<lambda>f. pusher_trigger e (farmer_channel f) = None) farmerIds))"
    by blast
  let ?ok = "\<lambda>f. pusher_trigger e (farmer_channel f) = None"
  from run step [of e] have
    d': "d' = d\<lparr>products := ps',
               orders := AList.update orderId (ord\<lparr>o_paymentStatus := ''paid''\<rparr>) (orders d)\<rparr>"
    and evs: "evs = map (\<lambda>f. PusherTrigger (farmer_channel f)) (takeWhile ?ok farmerIds)"
    by simp_all
  from d' have ledger: "notifications d' = notifications d" by simp
  have sub: "set evs \<subseteq> (\<lambda>f. PusherTrigger (farmer_channel f))
                    ` (seller_set (products d) (o_items ord) - {[]})"
    unfolding evs using sellers set_takeWhileD [of _ ?ok farmerIds] by auto
  have each: "\<forall>f\<in>seller_set (products d) (o_items ord) - {[]}.
               count_list evs (PusherTrigger (farmer_channel f)) = 1"
    if ok: "\<forall>f\<in>seller_set (products d) (o_items ord). ?ok f"
  proof
    fix f assume f: "f \<in> seller_set (products d) (o_items ord) - {[]}"
    from ok sellers have "\<forall>f\<in>set farmerIds. ?ok f" by auto
    then have tw: "takeWhile ?ok farmerIds = farmerIds" by simp
    have "distinct evs"
      unfolding evs tw using dist by (simp add: distinct_map inj_on_def farmer_channel_def)
    moreover from f sellers have "PusherTrigger (farmer_channel f) \<in> set evs"
      unfolding evs tw by auto
    ultimately show "count_list evs (PusherTrigger (farmer_channel f)) = 1"
      by (simp add: distinct_count_list)
  qed
  from ledger sub each show ?thesis by blast
qed

text \<open>
  The amended C6 at the market with the basket ordered.
\<close>

theorem payment_callback_dispatch_only_witness:
  "map_of (orders basket_market) ''order000003'' = Some basket_order
   \<and> o_paymentStatus basket_order = ''pending''
   \<and> list_all (\<lambda>it. map_of (products basket_market) (oi_product it) \<noteq> None)
        (o_items basket_order)
   \<and> list_all (\<lambda>f. pusher_trigger env_ok (farmer_channel f) = None) [''f1'', ''f2'']
   \<and> notifications (fst (snd (stripe_webhook env_ok (payment_succeeded ''order000003'')
                                basket_market)))
       = notifications basket_market
   \<and> count_list (snd (snd (stripe_webhook env_ok (payment_succeeded ''order000003'')
                              basket_market)))
        (PusherTrigger (farmer_channel ''f1'')) = 1"
proof -
  let ?W = "stripe_webhook env_ok (payment_succeeded ''order000003'') basket_market"
  have order: "map_of (orders basket_market) ''order000003'' = Some basket_order"
    by (simp add: basket_market_eq)
  have pending: "o_paymentStatus basket_order = ''pending''"
    by (simp add: basket_order_def)
  have oid: "''order000003'' \<noteq> []" by simp
  have present: "\<forall>it\<in>set (o_items basket_order).
                   map_of (products basket_market) (oi_product it) \<noteq> None"
    by (simp add: basket_market_eq basket_order_def)
  have allok: "\<forall>f\<in>seller_set (products basket_market) (o_items basket_order).
                 pusher_trigger env_ok (farmer_channel f) = None"
    by (simp add: env_ok_def pusher_ok_def)
  have eq: "?W = (fst ?W, fst (snd ?W), snd (snd ?W))" by simp
  note T = payment_callback_dispatch_only [OF order pending oid present eq]
  from T have ledger: "notifications (fst (snd ?W)) = notifications basket_market" by blast
  have once: "count_list (snd (snd ?W)) (PusherTrigger (farmer_channel ''f1'')) = 1"
  proof -
    from T allok have
      "\<forall>f\<in>seller_set (products basket_market) (o_items basket_order) - {[]}.
         count_list (snd (snd ?W)) (PusherTrigger (farmer_channel f)) = 1"
      by blast
    moreover have "''f1'' \<in> seller_set (products basket_market) (o_items basket_order) - {[]}"
      by (simp add: basket_sellers)
    ultimately show ?thesis by blast
  qed
  from order pending present allok ledger once show ?thesis
    unfolding list_all_iff basket_sellers by simp
qed

text \<open>
  C6 as stated fails: processing the callback for the pending basket order triggers the
  dispatch to both sellers, and the notification ledger afterwards holds exactly the three
  records written at order creation, none for the sale.
\<close>

theorem no_sale_notification_counterexample:
  "map_of (orders basket_market) ''order000003'' = Some basket_order
   \<and> o_paymentStatus basket_order = ''pending''
   \<and> stripe_webhook env_ok (payment_succeeded ''order000003'') basket_market
       = (Response 200 ReceivedJson,
          basket_market\<lparr>
            products := [(''p1'', apples\<lparr>p_quantity := 1\<rparr>), (''p2'', honey\<lparr>p_quantity := - 1\<rparr>),
                         (''p3'', eggs)],
            orders := [(''order000003'', basket_order\<lparr>o_paymentStatus := ''paid''\<rparr>)]\<rparr>,
          [PusherTrigger ''private-farmer-f1'', PusherTrigger ''private-farmer-f2''])
   \<and> notifications (fst (snd (stripe_webhook env_ok (payment_succeeded ''order000003'')
                                basket_market)))
       = [new_order_notification ''order000003'' ''f1'',
          new_order_notification ''order000003'' ''f2'',
          order_placed_notification ''order000003'' ''c1'']"
  by code_simp


section \<open>Reading and updating one order\<close>


lemma isFarmerInvolved_iff:
  "isFarmerInvolved ps ord u \<longleftrightarrow> userId u \<in> seller_set ps (o_items ord)"
  by (auto simp: isFarmerInvolved_def seller_set_def list_ex_iff split: option.splits)

text \<open>
  C7 (as amended). For an authenticated user who is neither the buyer of the order nor a
  seller owning a product of its items, GET answers 403; PUT answers 403 when the body
  carries a status or a payment status, and 400 when it carries neither (the body is
  checked before the order is loaded). In every case the database is left as it was.
\<close>

theorem outsider_is_forbidden:
  assumes order: "map_of (orders d) orderId = Some ord"
    and not_buyer: "userId u \<noteq> o_customer ord"
    and not_seller: "userId u \<notin> seller_set (products d) (o_items ord)"
  shows "get_order e (Some u) orderId d
           = (Response 403 (ErrorJson ''Forbidden: You are not authorized to view this order.''),
              d, [])
    \<and> (truthy (st_status req) \<or> truthy (st_paymentStatus req) \<longrightarrow>
         put_order e (Some u) orderId req d
           = (Response 403 (ErrorJson ''Forbidden: You are not authorized to modify this order.''),
              d, []))
    \<and> (\<not> truthy (st_status req) \<and> \<not> truthy (st_paymentStatus req) \<longrightarrow>
         put_order e (Some u) orderId req d
           = (Response 400 (ErrorJson ''Missing status or paymentStatus to update''), d, []))"
proof -
  from not_buyer have c: "\<not> isCustomer ord u" by (auto simp: isCustomer_def)
  from not_seller have f: "\<not> isFarmerInvolved (products d) ord u"
    by (simp add: isFarmerInvolved_iff)
  from order c f show ?thesis
    by (simp add: get_order_def put_order_def)
qed

text \<open>
  The amended C7 at the market with the basket ordered, for a user who is no party to the
  order.
\<close>

theorem outsider_is_forbidden_witness:
  "map_of (orders basket_market) ''order000003'' = Some basket_order
   \<and> userId stranger \<noteq> o_customer basket_order
   \<and> userId stranger \<notin> seller_set (products basket_market) (o_items basket_order)
   \<and> truthy (st_status shipped_update)
   \<and> get_order env_ok (Some stranger) ''order000003'' basket_market
       = (Response 403 (ErrorJson ''Forbidden: You are not authorized to view this order.''),
          basket_market, [])
   \<and> put_order env_ok (Some stranger) ''order000003'' shipped_update basket_market
       = (Response 403 (ErrorJson ''Forbidden: You are not authorized to modify this order.''),
          basket_market, [])
   \<and> \<not> truthy (st_status empty_update) \<and> \<not> truthy (st_paymentStatus empty_update)
   \<and> put_order env_ok (Some stranger) ''order000003'' empty_update basket_market
       = (Response 400 (ErrorJson ''Missing status or paymentStatus to update''),
          basket_market, [])"
proof -
  have bm: "orders basket_market = [(''order000003'', basket_order)]"
    and ps: "products basket_market
               = [(''p1'', apples\<lparr>p_quantity := 3\<rparr>), (''p2'', honey\<lparr>p_quantity := 0\<rparr>),
                  (''p3'', eggs)]"
    by code_simp+
  have order: "map_of (orders basket_market) ''order000003'' = Some basket_order"
    by (simp add: bm)
  have nb: "userId stranger \<noteq> o_customer basket_order"
    by (simp add: stranger_def basket_order_def)
  have ns: "userId stranger \<notin> seller_set (products basket_market) (o_items basket_order)"
    by (auto simp: seller_set_def ps basket_order_def stranger_def apples_def honey_def)
  have t: "truthy (st_status shipped_update)"
    by (simp add: truthy_def shipped_update_def)
  have n: "\<not> truthy (st_status empty_update)" "\<not> truthy (st_paymentStatus empty_update)"
    by (simp_all add: truthy_def empty_update_def)
  from outsider_is_forbidden [OF order nb ns, of env_ok shipped_update] t
       outsider_is_forbidden [OF order nb ns, of env_ok empty_update] n
  show ?thesis using order nb ns by simp
qed

text \<open>
  C7 as stated fails for a PUT with nothing to update: the outsider is answered 400,
  \<^verbatim>\<open>Missing status or paymentStatus to update\<close>, not 403.
\<close>

theorem outsider_empty_update_counterexample:
  "map_of (orders basket_market) ''order000003'' = Some basket_order
   \<and> userId stranger \<noteq> o_customer basket_order
   \<and> \<not> isFarmerInvolved (products basket_market) basket_order stranger
   \<and> put_order env_ok (Some stranger) ''order000003'' empty_update basket_market
       = (Response 400 (ErrorJson ''Missing status or paymentStatus to update''),
          basket_market, [])"
  by code_simp

text \<open>
  What the code does: the buyer is written a notification exactly when the request
  succeeds and its body carries a status, whether or not the status was applied.
\<close>

lemma put_order_notifications:
  "notifications (fst (snd (put_order e usr orderId req d)))
     = (if status (fst (put_order e usr orderId req d)) = 200 \<and> truthy (st_status req)
        then notifications d
               @ [status_notification orderId (o_customer (the (map_of (orders d) orderId)))
                    (the (st_status req))]
        else notifications d)"
  by (auto simp: put_order_def put_saved_def Let_def split: option.splits)

text \<open>
  C9 fails on the code: the buyer of the basket order, who is no seller of it, confirms
  the payment with a body that also carries the status \<^verbatim>\<open>shipped\<close>. The payment
  status becomes paid, the fulfillment status stays pending, and yet the buyer is
  written the notification that the order has been marked as shipped.
\<close>

theorem buyer_notified_without_status_change:
  "map_of (orders basket_market) ''order000003'' = Some basket_order
   \<and> isCustomer basket_order buyer
   \<and> \<not> isFarmerInvolved (products basket_market) basket_order buyer
   \<and> o_status basket_order = ''pending''
   \<and> put_order env_ok (Some buyer) ''order000003'' paid_and_shipped_update basket_market
       = (Response 200
            (UpdatedJson ''order000003'' (Some (basket_order\<lparr>o_paymentStatus := ''paid''\<rparr>))),
          basket_market\<lparr>
            orders := [(''order000003'', basket_order\<lparr>o_paymentStatus := ''paid''\<rparr>)],
            notifications := notifications basket_market
              @ [status_notification ''order000003'' ''c1'' ''shipped'']\<rparr>,
          [Emit ''c1'' ''order_status_update''])
   \<and> o_status (basket_order\<lparr>o_paymentStatus := ''paid''\<rparr>) = ''pending''
   \<and> n_message (status_notification ''order000003'' ''c1'' ''shipped'')
       = ''Update: Your order #000003 has been marked as '' @ [CHR 0x27] @ ''shipped''
           @ [CHR 0x27] @ ''.''"
  by code_simp

section \<open>The payment gateway and the transaction\<close>

lemma process_items_events:
  "process_items ps acc tot evs its = (evs', res) \<Longrightarrow>
   \<exists>saved. evs' = evs @ map ProductSave saved"
proof (induction its arbitrary: ps acc tot evs)
  case Nil
  then show ?case by simp
next
  case (Cons item rest)
  show ?case
  proof (cases "map_of ps (ri_product item)")
    case None
    with Cons.prems show ?thesis by simp
  next
    case (Some product)
    show ?thesis
    proof (cases "p_quantity product < ri_quantity item")
      case True
      with Cons.prems Some show ?thesis by simp
    next
      case False
      with Cons.prems Some have
        "process_items
           (AList.update (ri_product item)
              (product\<lparr>p_quantity := p_quantity product - ri_quantity item\<rparr>) ps)
           (acc @ [\<lparr>oi_product = ri_product item, oi_quantity = ri_quantity item,
                     oi_price = p_price product\<rparr>])
           (js_add tot (js_mul (p_price product) (of_int (ri_quantity item))))
           (evs @ [ProductSave (ri_product item)]) rest = (evs', res)"
        by simp
      from Cons.IH [OF this] obtain saved where
        "evs' = (evs @ [ProductSave (ri_product item)]) @ map ProductSave saved" by blast
      then have "evs' = evs @ map ProductSave (ri_product item # saved)" by simp
      then show ?thesis by blast
    qed
  qed
qed

lemma process_items_saves:
  "process_items ps acc tot evs its = (evs', Inr out) \<Longrightarrow>
   evs' = evs @ map (\<lambda>it. ProductSave (ri_product it)) its"
proof (induction its arbitrary: ps acc tot evs)
  case Nil
  then show ?case by simp
next
  case (Cons item rest)
  from Cons.prems obtain product where
    found: "map_of ps (ri_product item) = Some product"
    and enough: "\<not> p_quantity product < ri_quantity item"
    by (auto split: option.splits if_splits)
  from Cons.prems found enough have
    "process_items
       (AList.update (ri_product item)
          (product\<lparr>p_quantity := p_quantity product - ri_quantity item\<rparr>) ps)
       (acc @ [\<lparr>oi_product = ri_product item, oi_quantity = ri_quantity item,
                 oi_price = p_price product\<rparr>])
       (js_add tot (js_mul (p_price product) (of_int (ri_quantity item))))
       (evs @ [ProductSave (ri_product item)]) rest = (evs', Inr out)"
    by simp
  from Cons.IH [OF this] show ?case by simp
qed

lemma process_items_no_gateway:
  "process_items ps acc tot evs its = (evs', res) \<Longrightarrow>
   CreatePaymentIntent a i \<in> set evs' \<Longrightarrow> CreatePaymentIntent a i \<in> set evs"
  using process_items_events [of ps acc tot evs its evs' res] by auto

lemma create_order_gateway_called:
  assumes run: "create_order e usr orderId req d = (r, d', evs)"
    and called: "CreatePaymentIntent a i \<in> set evs"
  obtains u ps orderItems where
    "usr = Some u" and "items req \<noteq> []" and "truthy (shippingAddress req)"
    and "i = orderId" and "paymentMethod req = ''stripe''"
    and "process_items (products d) [] 0 [StartTransaction] (items req)
           = (StartTransaction # map (\<lambda>it. ProductSave (ri_product it)) (items req),
              Inr (ps, orderItems, a))"
proof -
  obtain evs0 res where loop:
    "process_items (products d) [] 0 [StartTransaction] (items req) = (evs0, res)"
    by (cases "process_items (products d) [] 0 [StartTransaction] (items req)")
  have none: "CreatePaymentIntent a i \<notin> set evs0"
    using process_items_no_gateway [OF loop, of a i] by auto
  from run called obtain u where usr: "usr = Some u"
    by (cases usr) (auto simp: create_order_def)
  from run called usr have valid: "items req \<noteq> []" "truthy (shippingAddress req)"
    by (auto simp: create_order_def split: if_splits)
  from run called usr valid loop none obtain ps orderItems totalAmount where
    res: "res = Inr (ps, orderItems, totalAmount)"
    by (cases res) (auto simp: create_order_def)
  from process_items_saves [OF loop [unfolded res]] have
    evs0: "evs0 = StartTransaction # map (\<lambda>it. ProductSave (ri_product it)) (items req)"
    by simp
  have stripe: "paymentMethod req = ''stripe''"
  proof (rule ccontr)
    assume "paymentMethod req \<noteq> ''stripe''"
    with run called usr valid loop none res show False
      by (auto simp: create_order_def Let_def notify_created_def split: if_splits)
  qed
  have ai: "a = totalAmount \<and> i = orderId"
  proof (cases "createPaymentIntent e totalAmount orderId")
    case (Inl message)
    with run usr valid loop res stripe have
      "evs = evs0 @ [OrderSave orderId, CreatePaymentIntent totalAmount orderId,
                     AbortTransaction]"
      by (auto simp: create_order_def Let_def)
    with called none show ?thesis by auto
  next
    case (Inr intent)
    obtain intentId clientSecret where intent: "intent = (intentId, clientSecret)"
      by (cases intent)
    let ?emits = "if io e then map (\<lambda>f. Emit f ''new_order'') (farmerIds_of ps orderItems)
                  else []"
    from run usr valid loop res stripe Inr intent have
      "evs = evs0 @ [OrderSave orderId, CreatePaymentIntent totalAmount orderId,
                     OrderSave orderId, CommitTransaction] @ ?emits"
      by (auto simp: create_order_def Let_def notify_created_def new_Order_def)
    with called none show ?thesis by (auto split: if_splits)
  qed
  with usr valid stripe loop res evs0 show ?thesis by (intro that [of u ps orderItems]) auto
qed

text \<open>
  C8 (as amended). Order creation with the payment method \<^verbatim>\<open>stripe\<close> calls the
  payment gateway inside the transaction: every successful creation has called it, and
  whenever the gateway is called, it is called for this order and its total, and what came
  before the call is exactly \<^verbatim>\<open>startTransaction\<close>, the stock reservation (one save
  of the product of every requested item, in input order) and the order's first save: no
  commit and no abort. If the gateway call fails, the abort is all that follows, the
  database is unchanged and the response is the error's. If it succeeds, what follows is
  the second save of the order and then \<^verbatim>\<open>commitTransaction\<close>, and after them only
  emits to the sellers; the order is stored under its id with the intent's id and the
  total the gateway was asked for, the response carries the order and the intent, and the
  stock of every product is its stock before less the quantity requested of it.
\<close>

theorem payment_intent_inside_transaction:
  assumes run: "create_order e usr orderId req d = (r, d', evs)"
  shows "(status r = 200 \<and> paymentMethod req = ''stripe''
          \<longrightarrow> (\<exists>a. CreatePaymentIntent a orderId \<in> set evs))
    \<and> (\<forall>a i. CreatePaymentIntent a i \<in> set evs
          \<longrightarrow> i = orderId \<and> paymentMethod req = ''stripe''
              \<and> (\<exists>post. evs = StartTransaction
                                 # map (\<lambda>it. ProductSave (ri_product it)) (items req)
                                 @ [OrderSave orderId, CreatePaymentIntent a orderId] @ post
                    \<and> (case createPaymentIntent e a orderId of
                          Inl message \<Rightarrow>
                            post = [AbortTransaction] \<and> d' = d \<and> r = create_catch message
                            \<and> status r \<noteq> 200
                        | Inr intent \<Rightarrow>
                            (\<exists>ord emits.
                               post = [OrderSave orderId, CommitTransaction] @ emits
                               \<and> set emits \<subseteq> range (\<lambda>f. Emit f ''new_order'')
                               \<and> map_of (orders d') orderId = Some ord
                               \<and> o_stripePaymentIntentId ord = Some (fst intent)
                               \<and> o_totalAmount ord = a
                               \<and> r = Response 200 (OrderCreatedJson orderId ord (Some intent))
                               \<and> (\<forall>pid. map_of (products d') pid
                                     = map_option
                                         (\<lambda>p. p\<lparr>p_quantity := p_quantity p
                                                   - requested_quantity pid (items req)\<rparr>)
                                         (map_of (products d) pid))))))"
proof -
  let ?saves = "map (\<lambda>it. ProductSave (ri_product it)) (items req)"
  have called: "\<exists>a. CreatePaymentIntent a orderId \<in> set evs"
    if "status r = 200" "paymentMethod req = ''stripe''"
    using run that(1)
  proof (rule create_order_success)
    fix evs0 totalAmount emits
    assume "evs = evs0 @ [OrderSave orderId]
                 @ (if paymentMethod req = ''stripe''
                    then [CreatePaymentIntent totalAmount orderId, OrderSave orderId] else [])
                 @ [CommitTransaction] @ emits"
    with that(2) show ?thesis by auto
  qed
  have inside: "i = orderId \<and> paymentMethod req = ''stripe''
              \<and> (\<exists>post. evs = StartTransaction # ?saves
                                 @ [OrderSave orderId, CreatePaymentIntent a orderId] @ post
                    \<and> (case createPaymentIntent e a orderId of
                          Inl message \<Rightarrow>
                            post = [AbortTransaction] \<and> d' = d \<and> r = create_catch message
                            \<and> status r \<noteq> 200
                        | Inr intent \<Rightarrow>
                            (\<exists>ord emits.
                               post = [OrderSave orderId, CommitTransaction] @ emits
                               \<and> set emits \<subseteq> range (\<lambda>f. Emit f ''new_order'')
                               \<and> map_of (orders d') orderId = Some ord
                               \<and> o_stripePaymentIntentId ord = Some (fst intent)
                               \<and> o_totalAmount ord = a
                               \<and> r = Response 200 (OrderCreatedJson orderId ord (Some intent))
                               \<and> (\<forall>pid. map_of (products d') pid
                                     = map_option
                                         (\<lambda>p. p\<lparr>p_quantity := p_quantity p
                                                   - requested_quantity pid (items req)\<rparr>)
                                         (map_of (products d) pid)))))"
    if mem: "CreatePaymentIntent a i \<in> set evs" for a i
    using run mem
  proof (rule create_order_gateway_called)
    fix u ps orderItems
    assume usr: "usr = Some u" and valid: "items req \<noteq> []" "truthy (shippingAddress req)"
      and i: "i = orderId" and stripe: "paymentMethod req = ''stripe''"
      and loop: "process_items (products d) [] 0 [StartTransaction] (items req)
                   = (StartTransaction # ?saves, Inr (ps, orderItems, a))"
    from process_items_success [OF loop] have
      reserved: "\<forall>pid. map_of ps pid
          = map_option (\<lambda>p. p\<lparr>p_quantity := p_quantity p - requested_quantity pid (items req)\<rparr>)
              (map_of (products d) pid)"
      by blast
    have rest: "\<exists>post. evs = StartTransaction # ?saves
                                 @ [OrderSave orderId, CreatePaymentIntent a orderId] @ post
                    \<and> (case createPaymentIntent e a orderId of
                          Inl message \<Rightarrow>
                            post = [AbortTransaction] \<and> d' = d \<and> r = create_catch message
                            \<and> status r \<noteq> 200
                        | Inr intent \<Rightarrow>
                            (\<exists>ord emits.
                               post = [OrderSave orderId, CommitTransaction] @ emits
                               \<and> set emits \<subseteq> range (\<lambda>f. Emit f ''new_order'')
                               \<and> map_of (orders d') orderId = Some ord
                               \<and> o_stripePaymentIntentId ord = Some (fst intent)
                               \<and> o_totalAmount ord = a
                               \<and> r = Response 200 (OrderCreatedJson orderId ord (Some intent))
                               \<and> (\<forall>pid. map_of (products d') pid
                                     = map_option
                                         (\<lambda>p. p\<lparr>p_quantity := p_quantity p
                                                   - requested_quantity pid (items req)\<rparr>)
                                         (map_of (products d) pid))))"
    proof (cases "createPaymentIntent e a orderId")
      case (Inl message)
      with run usr valid loop stripe have
        out: "r = create_catch message" "d' = d"
             "evs = (StartTransaction # ?saves)
                      @ [OrderSave orderId, CreatePaymentIntent a orderId, AbortTransaction]"
        by (auto simp: create_order_def Let_def)
      from out Inl show ?thesis
        by (intro exI [of _ "[AbortTransaction]"]) (simp add: create_catch_status)
    next
      case (Inr intent)
      obtain intentId clientSecret where intent: "intent = (intentId, clientSecret)"
        by (cases intent)
      let ?ord = "(new_Order (userId u) orderItems a req)\<lparr>o_stripePaymentIntentId := Some intentId\<rparr>"
      let ?emits = "if io e then map (\<lambda>f. Emit f ''new_order'') (farmerIds_of ps orderItems)
                    else []"
      from run usr valid loop stripe Inr intent have
        out: "r = Response 200 (OrderCreatedJson orderId ?ord (Some intent))"
             "products d' = ps"
             "orders d' = AList.update orderId ?ord (orders d)"
             "evs = (StartTransaction # ?saves)
                      @ [OrderSave orderId, CreatePaymentIntent a orderId,
                         OrderSave orderId, CommitTransaction] @ ?emits"
        by (auto simp: create_order_def Let_def notify_created_def new_Order_def)
      have emits: "set ?emits \<subseteq> range (\<lambda>f. Emit f ''new_order'')" by auto
      have found: "map_of (orders d') orderId = Some ?ord"
        using out(3) by (simp add: update_conv')
      have fields: "o_stripePaymentIntentId ?ord = Some (fst intent)" "o_totalAmount ?ord = a"
        by (simp_all add: intent new_Order_def)
      have "\<exists>ord emits.
               [OrderSave orderId, CommitTransaction] @ ?emits
                 = [OrderSave orderId, CommitTransaction] @ emits
               \<and> set emits \<subseteq> range (\<lambda>f. Emit f ''new_order'')
               \<and> map_of (orders d') orderId = Some ord
               \<and> o_stripePaymentIntentId ord = Some (fst intent)
               \<and> o_totalAmount ord = a
               \<and> r = Response 200 (OrderCreatedJson orderId ord (Some intent))
               \<and> (\<forall>pid. map_of (products d') pid
                     = map_option
                         (\<lambda>p. p\<lparr>p_quantity := p_quantity p
                                   - requested_quantity pid (items req)\<rparr>)
                         (map_of (products d) pid))"
        using emits found fields out(1) out(2) reserved
        by (intro exI [of _ ?ord] exI [of _ ?emits]) simp
      with out(4) Inr show ?thesis
        by (intro exI [of _ "[OrderSave orderId, CommitTransaction] @ ?emits"]) simp
    qed
    from i stripe rest show ?thesis by blast
  qed
  from called inside show ?thesis by blast
qed

text \<open>
  The amended C8 at the basket order: with the gateway answering, and with the gateway
  refusing the connection.
\<close>

theorem payment_intent_inside_transaction_witness:
  "status (fst (create_order env_ok (Some buyer) ''order000003'' basket_request market)) = 200
   \<and> paymentMethod basket_request = ''stripe''
   \<and> (\<exists>a ord emits.
         snd (snd (create_order env_ok (Some buyer) ''order000003'' basket_request market))
           = StartTransaction # map (\<lambda>it. ProductSave (ri_product it)) (items basket_request)
               @ [OrderSave ''order000003'', CreatePaymentIntent a ''order000003'']
               @ [OrderSave ''order000003'', CommitTransaction] @ emits
         \<and> map_of (orders (fst (snd (create_order env_ok (Some buyer) ''order000003''
                                       basket_request market)))) ''order000003'' = Some ord
         \<and> o_stripePaymentIntentId ord = Some ''pi_1''
         \<and> o_totalAmount ord = a
         \<and> map_option p_quantity
              (map_of (products (fst (snd (create_order env_ok (Some buyer) ''order000003''
                                             basket_request market)))) ''p2'') = Some 0)
   \<and> CreatePaymentIntent 25 ''order000003''
       \<in> set (snd (snd (create_order env_gateway_down (Some buyer) ''order000003''
                          basket_request market)))
   \<and> snd (snd (create_order env_gateway_down (Some buyer) ''order000003'' basket_request market))
       = [StartTransaction, ProductSave ''p1'', ProductSave ''p2'', OrderSave ''order000003'',
          CreatePaymentIntent 25 ''order000003'', AbortTransaction]
   \<and> fst (snd (create_order env_gateway_down (Some buyer) ''order000003'' basket_request market))
       = market
   \<and> status (fst (create_order env_gateway_down (Some buyer) ''order000003''
                     basket_request market)) = 500"
proof -
  let ?C = "create_order env_ok (Some buyer) ''order000003'' basket_request market"
  let ?F = "create_order env_gateway_down (Some buyer) ''order000003'' basket_request market"
  let ?saves = "map (\<lambda>it. ProductSave (ri_product it)) (items basket_request)"
  have eqC: "?C = (fst ?C, fst (snd ?C), snd (snd ?C))" by simp
  have eqF: "?F = (fst ?F, fst (snd ?F), snd (snd ?F))" by simp
  have ok: "status (fst ?C) = 200" by code_simp
  have stripe: "paymentMethod basket_request = ''stripe''" by (simp add: basket_request_def)
  note T = payment_intent_inside_transaction [OF eqC]
  from T ok stripe obtain a where a: "CreatePaymentIntent a ''order000003'' \<in> set (snd (snd ?C))"
    by blast
  have gw: "createPaymentIntent env_ok a ''order000003'' = Inr (''pi_1'', ''pi_1_secret'')"
    by (simp add: env_ok_def gateway_ok_def)
  from T a obtain post where
    post: "snd (snd ?C) = StartTransaction # ?saves
             @ [OrderSave ''order000003'', CreatePaymentIntent a ''order000003''] @ post"
    and branch: "case createPaymentIntent env_ok a ''order000003'' of
         Inl message \<Rightarrow>
           post = [AbortTransaction] \<and> fst (snd ?C) = market \<and> fst ?C = create_catch message
           \<and> status (fst ?C) \<noteq> 200
       | Inr intent \<Rightarrow>
           (\<exists>ord emits.
              post = [OrderSave ''order000003'', CommitTransaction] @ emits
              \<and> set emits \<subseteq> range (\<lambda>f. Emit f ''new_order'')
              \<and> map_of (orders (fst (snd ?C))) ''order000003'' = Some ord
              \<and> o_stripePaymentIntentId ord = Some (fst intent)
              \<and> o_totalAmount ord = a
              \<and> fst ?C = Response 200 (OrderCreatedJson ''order000003'' ord (Some intent))
              \<and> (\<forall>pid. map_of (products (fst (snd ?C))) pid
                    = map_option
                        (\<lambda>p. p\<lparr>p_quantity := p_quantity p
                                  - requested_quantity pid (items basket_request)\<rparr>)
                        (map_of (products market) pid)))"
    by blast
  from branch gw obtain ord emits where
    saved: "post = [OrderSave ''order000003'', CommitTransaction] @ emits"
      "map_of (orders (fst (snd ?C))) ''order000003'' = Some ord"
      "o_stripePaymentIntentId ord = Some ''pi_1''" "o_totalAmount ord = a"
    and stock: "map_of (products (fst (snd ?C))) ''p2''
                    = map_option
                        (\<lambda>p. p\<lparr>p_quantity := p_quantity p
                                  - requested_quantity ''p2'' (items basket_request)\<rparr>)
                        (map_of (products market) ''p2'')"
    by auto
  have "map_option p_quantity
          (map_option
             (\<lambda>p. p\<lparr>p_quantity := p_quantity p
                       - requested_quantity ''p2'' (items basket_request)\<rparr>)
             (map_of (products market) ''p2'')) = Some 0"
    by code_simp
  with stock have honey: "map_option p_quantity (map_of (products (fst (snd ?C))) ''p2'') = Some 0"
    by simp
  from post saved honey have success:
    "\<exists>a ord emits.
         snd (snd ?C)
           = StartTransaction # ?saves
               @ [OrderSave ''order000003'', CreatePaymentIntent a ''order000003'']
               @ [OrderSave ''order000003'', CommitTransaction] @ emits
         \<and> map_of (orders (fst (snd ?C))) ''order000003'' = Some ord
         \<and> o_stripePaymentIntentId ord = Some ''pi_1''
         \<and> o_totalAmount ord = a
         \<and> map_option p_quantity (map_of (products (fst (snd ?C))) ''p2'') = Some 0"
    by blast
  note U = payment_intent_inside_transaction [OF eqF]
  have called: "CreatePaymentIntent 25 ''order000003'' \<in> set (snd (snd ?F))" by code_simp
  have down: "createPaymentIntent env_gateway_down 25 ''order000003''
                = Inl ''connect ECONNREFUSED''"
    by (simp add: env_gateway_down_def gateway_down_def)
  from U called obtain post' where
    post': "snd (snd ?F) = StartTransaction # ?saves
             @ [OrderSave ''order000003'', CreatePaymentIntent 25 ''order000003''] @ post'"
    and branch': "case createPaymentIntent env_gateway_down 25 ''order000003'' of
         Inl message \<Rightarrow>
           post' = [AbortTransaction] \<and> fst (snd ?F) = market \<and> fst ?F = create_catch message
           \<and> status (fst ?F) \<noteq> 200
       | Inr intent \<Rightarrow>
           (\<exists>ord emits.
              post' = [OrderSave ''order000003'', CommitTransaction] @ emits
              \<and> set emits \<subseteq> range (\<lambda>f. Emit f ''new_order'')
              \<and> map_of (orders (fst (snd ?F))) ''order000003'' = Some ord
              \<and> o_stripePaymentIntentId ord = Some (fst intent)
              \<and> o_totalAmount ord = 25
              \<and> fst ?F = Response 200 (OrderCreatedJson ''order000003'' ord (Some intent))
              \<and> (\<forall>pid. map_of (products (fst (snd ?F))) pid
                    = map_option
                        (\<lambda>p. p\<lparr>p_quantity := p_quantity p
                                  - requested_quantity pid (items basket_request)\<rparr>)
                        (map_of (products market) pid)))"
    by blast
  from branch' down have aborted: "post' = [AbortTransaction]" "fst (snd ?F) = market"
    "fst ?F = create_catch ''connect ECONNREFUSED''"
    by simp_all
  have "status (create_catch ''connect ECONNREFUSED'') = 500" by code_simp
  with aborted(3) have refused: "status (fst ?F) = 500" by simp
  from post' aborted(1) have trace:
    "snd (snd ?F) = [StartTransaction, ProductSave ''p1'', ProductSave ''p2'',
                     OrderSave ''order000003'', CreatePaymentIntent 25 ''order000003'',
                     AbortTransaction]"
    by (simp add: basket_request_def)
  from ok stripe success called trace aborted(2) refused show ?thesis by blast
qed

text \<open>
  C8 as stated fails: in the trace of the basket order the payment-intent request precedes
  \<^verbatim>\<open>commitTransaction\<close>.
\<close>

theorem payment_intent_before_commit_counterexample:
  "paymentMethod basket_request = ''stripe''
   \<and> create_order env_ok (Some buyer) ''order000003'' basket_request market
       = (Response 200
            (OrderCreatedJson ''order000003'' basket_order (Some (''pi_1'', ''pi_1_secret''))),
          basket_market,
          [StartTransaction, ProductSave ''p1'', ProductSave ''p2'', OrderSave ''order000003'',
           CreatePaymentIntent 25 ''order000003'', OrderSave ''order000003'',
           CommitTransaction, Emit ''f1'' ''new_order'', Emit ''f2'' ''new_order''])"
  by code_simp

section \<open>Sequences of requests\<close>

lemma references_ok_iff:
  "references_ok d \<longleftrightarrow>
     (\<forall>orderId ord. map_of (orders d) orderId = Some ord
        \<longrightarrow> (\<forall>it\<in>set (o_items ord). map_of (products d) (oi_product it) \<noteq> None))"
proof
  assume ok: "references_ok d"
  show "\<forall>orderId ord. map_of (orders d) orderId = Some ord
        \<longrightarrow> (\<forall>it\<in>set (o_items ord). map_of (products d) (oi_product it) \<noteq> None)"
  proof (intro allI impI)
    fix orderId ord
    assume found: "map_of (orders d) orderId = Some ord"
    then have "orderId \<in> set (map fst (orders d))"
      by (metis map_of_eq_None_iff option.distinct(1) set_map)
    with ok found show "\<forall>it\<in>set (o_items ord). map_of (products d) (oi_product it) \<noteq> None"
      unfolding references_ok_def list_all_iff by fastforce
  qed
next
  assume "\<forall>orderId ord. map_of (orders d) orderId = Some ord
        \<longrightarrow> (\<forall>it\<in>set (o_items ord). map_of (products d) (oi_product it) \<noteq> None)"
  then show "references_ok d"
    unfolding references_ok_def list_all_iff by (auto split: option.splits)
qed

lemma decrement_stock_dom:
  "decrement_stock populated ps fs its = (ps', res) \<Longrightarrow>
   (map_of ps' pid = None) = (map_of ps pid = None)"
proof (induction its arbitrary: ps fs)
  case Nil
  then show ?case by simp
next
  case (Cons item rest)
  show ?case
  proof (cases "map_of populated (oi_product item)")
    case None
    with Cons.prems show ?thesis by simp
  next
    case (Some product)
    with Cons.prems have
      "decrement_stock populated (inc_quantity (oi_product item) (- oi_quantity item) ps)
         (if p_farmer product \<noteq> [] then Set_add fs (p_farmer product) else fs) rest
       = (ps', res)"
      by simp
    from Cons.IH [OF this] show ?thesis
      by (simp add: map_of_inc_quantity)
  qed
qed

lemma references_ok_frame:
  assumes "references_ok d"
    and "\<And>pid. (map_of (products d') pid = None) = (map_of (products d) pid = None)"
    and "\<And>orderId ord'. map_of (orders d') orderId = Some ord'
           \<Longrightarrow> \<exists>orderId0 ord. map_of (orders d) orderId0 = Some ord \<and> o_items ord' = o_items ord"
  shows "references_ok d'"
  unfolding references_ok_iff
proof (intro allI impI ballI)
  fix orderId ord' it
  assume "map_of (orders d') orderId = Some ord'" and it: "it \<in> set (o_items ord')"
  from assms(3) [OF this(1)] obtain orderId0 ord where
    "map_of (orders d) orderId0 = Some ord" "o_items ord' = o_items ord" by blast
  with assms(1) it have "map_of (products d) (oi_product it) \<noteq> None"
    unfolding references_ok_iff by metis
  with assms(2) show "map_of (products d') (oi_product it) \<noteq> None" by simp
qed

lemma stripe_webhook_frame:
  "(\<forall>pid. (map_of (products (fst (snd (stripe_webhook e req d)))) pid = None)
            = (map_of (products d) pid = None))
   \<and> (orders (fst (snd (stripe_webhook e req d))) = orders d
      \<or> (\<exists>orderId ord. map_of (orders d) orderId = Some ord
            \<and> orders (fst (snd (stripe_webhook e req d)))
                = AList.update orderId (ord\<lparr>o_paymentStatus := ''paid''\<rparr>) (orders d)))"
proof (cases req)
  case (Inl message)
  then show ?thesis by (simp add: stripe_webhook_def)
next
  case (Inr ev)
  show ?thesis
  proof (cases "ev_type ev = ''payment_intent.succeeded'' \<and> truthy (ev_orderId ev)")
    case False
    with Inr show ?thesis by (auto simp: stripe_webhook_def)
  next
    case True
    show ?thesis
    proof (cases "map_of (orders d) (the (ev_orderId ev))")
      case None
      with Inr True show ?thesis by (simp add: stripe_webhook_def)
    next
      case (Some ord)
      show ?thesis
      proof (cases "o_paymentStatus ord = ''paid''")
        case paid: True
        with Inr True Some show ?thesis by (simp add: stripe_webhook_def)
      next
        case unpaid: False
        obtain ps res where loop:
          "decrement_stock (products d) (products d) [] (o_items ord) = (ps, res)"
          by (cases "decrement_stock (products d) (products d) [] (o_items ord)")
        have dom: "\<forall>pid. (map_of ps pid = None) = (map_of (products d) pid = None)"
          using decrement_stock_dom [OF loop] by simp
        show ?thesis
        proof (cases res)
          case (Inl message)
          with Inr True Some unpaid loop dom show ?thesis
            by (simp add: stripe_webhook_def)
        next
          case farmers: (Inr farmerIds)
          obtain evs outcome where "trigger_all e [] farmerIds = (evs, outcome)"
            by (cases "trigger_all e [] farmerIds")
          with Inr True Some unpaid loop dom farmers show ?thesis
            by (cases outcome) (auto simp: stripe_webhook_def Let_def)
        qed
      qed
    qed
  qed
qed

lemma stripe_webhook_references_ok:
  assumes "references_ok d"
  shows "references_ok (fst (snd (stripe_webhook e req d)))"
proof (rule references_ok_frame [OF assms])
  show "(map_of (products (fst (snd (stripe_webhook e req d)))) pid = None)
          = (map_of (products d) pid = None)" for pid
    using stripe_webhook_frame [of e req d] by blast
next
  fix orderId ord'
  assume found: "map_of (orders (fst (snd (stripe_webhook e req d)))) orderId = Some ord'"
  from stripe_webhook_frame [of e req d] consider
      "orders (fst (snd (stripe_webhook e req d))) = orders d"
    | oid ord where "map_of (orders d) oid = Some ord"
        "orders (fst (snd (stripe_webhook e req d)))
           = AList.update oid (ord\<lparr>o_paymentStatus := ''paid''\<rparr>) (orders d)"
    by blast
  then show "\<exists>orderId0 ord. map_of (orders d) orderId0 = Some ord \<and> o_items ord' = o_items ord"
  proof cases
    case 1
    with found show ?thesis by auto
  next
    case 2
    show ?thesis
    proof (cases "orderId = oid")
      case True
      with found 2 have "ord' = ord\<lparr>o_paymentStatus := ''paid''\<rparr>"
        by (simp add: update_conv')
      then have "o_items ord' = o_items ord" by simp
      with 2(1) show ?thesis by blast
    next
      case False
      with found 2 have "map_of (orders d) orderId = Some ord'"
        by (simp add: update_conv')
      then show ?thesis by blast
    qed
  qed
qed

lemma put_saved_references_ok:
  assumes "references_ok d" and "map_of (orders d) orderId = Some ord"
    and "o_items ord' = o_items ord"
  shows "references_ok (fst (snd (put_saved e orderId req ord' d)))"
proof (rule references_ok_frame [OF assms(1)])
  show "(map_of (products (fst (snd (put_saved e orderId req ord' d)))) pid = None)
          = (map_of (products d) pid = None)" for pid
    by (simp add: put_saved_def Let_def)
next
  fix oid new
  assume "map_of (orders (fst (snd (put_saved e orderId req ord' d)))) oid = Some new"
  then have found: "map_of (AList.update orderId ord' (orders d)) oid = Some new"
    by (simp add: put_saved_def Let_def split: if_splits)
  show "\<exists>orderId0 ord. map_of (orders d) orderId0 = Some ord \<and> o_items new = o_items ord"
  proof (cases "oid = orderId")
    case True
    with found have "new = ord'" by (simp add: update_conv')
    with assms(2,3) show ?thesis by blast
  next
    case False
    with found have "map_of (orders d) oid = Some new" by (simp add: update_conv')
    then show ?thesis by blast
  qed
qed

lemma put_order_references_ok:
  assumes "references_ok d"
  shows "references_ok (fst (snd (put_order e usr orderId req d)))"
proof (cases usr)
  case None
  with assms show ?thesis by (simp add: put_order_def)
next
  case (Some u)
  show ?thesis
  proof (cases "map_of (orders d) orderId")
    case None
    with Some assms show ?thesis by (simp add: put_order_def)
  next
    case found: (Some ord)
    let ?paid = "ord\<lparr>o_paymentStatus := ''paid''\<rparr>"
    note saved = put_saved_references_ok [OF assms found]
    have 1: "references_ok (fst (snd (put_saved e orderId req ord d)))"
      and 2: "references_ok (fst (snd (put_saved e orderId req ?paid d)))"
      and 3: "references_ok (fst (snd (put_saved e orderId req
                (ord\<lparr>o_status := the (st_status req)\<rparr>) d)))"
      and 4: "references_ok (fst (snd (put_saved e orderId req
                (?paid\<lparr>o_status := the (st_status req)\<rparr>) d)))"
      by (rule saved, simp)+
    from Some found assms 1 2 3 4 show ?thesis
      by (simp add: put_order_def Let_def)
  qed
qed

lemma get_order_unchanged: "fst (snd (get_order e usr orderId d)) = d"
  by (auto simp: get_order_def split: option.splits sum.splits)

lemma create_order_references_ok:
  assumes ok: "references_ok d"
  shows "references_ok (fst (snd (create_order e usr orderId req d)))"
proof (cases "status (fst (create_order e usr orderId req d)) = 200")
  case False
  have "create_order e usr orderId req d
          = (fst (create_order e usr orderId req d), fst (snd (create_order e usr orderId req d)),
             snd (snd (create_order e usr orderId req d)))"
    by simp
  from create_order_failure [OF this False] ok show ?thesis by simp
next
  case True
  let ?X = "create_order e usr orderId req d"
  have eq: "?X = (fst ?X, fst (snd ?X), snd (snd ?X))" by simp
  from eq True show ?thesis
  proof (rule create_order_success)
    fix u evs0 ps orderItems totalAmount intent ord
    assume loop: "process_items (products d) [] 0 [StartTransaction] (items req)
           = (evs0, Inr (ps, orderItems, totalAmount))"
      and ord: "ord = (new_Order (userId u) orderItems totalAmount req)
                 \<lparr>o_stripePaymentIntentId := map_option fst intent\<rparr>"
      and ps: "products (fst (snd ?X)) = ps"
      and saved: "orders (fst (snd ?X)) = AList.update orderId ord (orders d)"
    from ord have its: "o_items ord = orderItems" by (simp add: new_Order_def)
    from process_items_success [OF loop] have
      present: "\<forall>it\<in>set (items req). map_of (products d) (ri_product it) \<noteq> None"
      and same: "\<forall>pid. (map_of ps pid = None) = (map_of (products d) pid = None)"
      by auto
    from process_items_items [OF loop] have
      ids: "oi_product ` set orderItems = ri_product ` set (items req)"
      by simp
    have new: "\<forall>it\<in>set (o_items ord). map_of ps (oi_product it) \<noteq> None"
    proof
      fix it assume "it \<in> set (o_items ord)"
      with its have "oi_product it \<in> oi_product ` set orderItems" by simp
      with ids obtain x where "x \<in> set (items req)" "ri_product x = oi_product it" by auto
      with present same show "map_of ps (oi_product it) \<noteq> None" by metis
    qed
    from ok new same show ?thesis
      unfolding references_ok_iff ps saved by (auto simp: update_conv')
  qed
qed

lemma handle_references_ok:
  "references_ok d \<Longrightarrow> references_ok (fst (snd (handle e rq d)))"
  by (cases rq)
     (simp_all add: handle_def create_order_references_ok stripe_webhook_references_ok
        put_order_references_ok get_order_unchanged)

lemma run_references_ok: "references_ok d \<Longrightarrow> references_ok (run ops d)"
  by (induction ops arbitrary: d) (simp_all add: handle_references_ok)

lemma no_orders_references_ok: "orders d = [] \<Longrightarrow> references_ok d"
  by (simp add: references_ok_def)

text \<open>
  In every database that the handlers reach from one without orders, the items of every
  order reference products of the catalog.
\<close>

lemma reachable_present:
  assumes "orders d = []" and "map_of (orders (run reqs d)) orderId = Some ord"
  shows "\<forall>it\<in>set (o_items ord). map_of (products (run reqs d)) (oi_product it) \<noteq> None"
  using run_references_ok [OF no_orders_references_ok [OF assms(1)], of reqs] assms(2)
  by (simp add: references_ok_iff)


lemma requested_quantity_absent:
  "pid \<notin> ri_product ` set its \<Longrightarrow> requested_quantity pid its = 0"
  by (induction its) (auto simp: requested_quantity_Cons requested_quantity_Nil)

lemma create_order_stock_nonnegative:
  assumes nonneg: "\<forall>pid p. map_of (products d) pid = Some p \<longrightarrow> 0 \<le> p_quantity p"
    and found: "map_of (products (fst (snd (create_order e usr orderId req d)))) pid = Some p"
  shows "0 \<le> p_quantity p"
proof (cases "status (fst (create_order e usr orderId req d)) = 200")
  case False
  let ?X = "create_order e usr orderId req d"
  have "?X = (fst ?X, fst (snd ?X), snd (snd ?X))" by simp
  from create_order_failure [OF this False] nonneg found show ?thesis by simp
next
  case True
  let ?X = "create_order e usr orderId req d"
  have eq: "?X = (fst ?X, fst (snd ?X), snd (snd ?X))" by simp
  from eq True show ?thesis
  proof (rule create_order_success)
    fix evs0 ps orderItems totalAmount
    assume loop: "process_items (products d) [] 0 [StartTransaction] (items req)
           = (evs0, Inr (ps, orderItems, totalAmount))"
      and ps: "products (fst (snd ?X)) = ps"
    from process_items_success [OF loop] have
      qty: "\<forall>pid. map_of ps pid
          = map_option (\<lambda>p. p\<lparr>p_quantity := p_quantity p - requested_quantity pid (items req)\<rparr>)
              (map_of (products d) pid)"
      and ordered: "\<forall>it\<in>set (items req). \<forall>p. map_of ps (ri_product it) = Some p
                      \<longrightarrow> 0 \<le> p_quantity p"
      by blast+
    show ?thesis
    proof (cases "pid \<in> ri_product ` set (items req)")
      case True
      with ordered found ps show ?thesis by auto
    next
      case False
      from found ps qty obtain p0 where
        "map_of (products d) pid = Some p0"
        "p = p0\<lparr>p_quantity := p_quantity p0 - requested_quantity pid (items req)\<rparr>"
        by auto
      with nonneg requested_quantity_absent [OF False] show ?thesis by simp
    qed
  qed
qed

text \<open>
  C3 fails on the code. Order creation keeps a non-negative stock non-negative
  (\<open>create_order_stock_nonnegative\<close>), and reading or updating an order touches no
  product; the payment callback decrements unguarded. One unit of honey is in stock; the
  basket orders it (stock 0); the callback for the order decrements it again, to \<open>-1\<close>.
\<close>

theorem stock_negative_after_payment:
  "map_option p_quantity (map_of (products market) ''p2'') = Some 1
   \<and> fst (handle env_ok (PostOrder (Some buyer) ''order000003'' basket_request) market)
       = Response 200 (OrderCreatedJson ''order000003'' basket_order (Some (''pi_1'', ''pi_1_secret'')))
   \<and> map_option p_quantity
        (map_of (products (run [(env_ok, PostOrder (Some buyer) ''order000003'' basket_request)]
                             market)) ''p2'')
       = Some 0
   \<and> fst (handle env_ok (PostWebhook (payment_succeeded ''order000003''))
             (run [(env_ok, PostOrder (Some buyer) ''order000003'' basket_request)] market))
       = Response 200 ReceivedJson
   \<and> map_option p_quantity
        (map_of (products (run [(env_ok, PostOrder (Some buyer) ''order000003'' basket_request),
                                (env_ok, PostWebhook (payment_succeeded ''order000003''))]
                             market)) ''p2'')
       = Some (- 1)"
  by code_simp


end
